theory Spec2Isabelle
  imports Complex_Main "HOL-Library.Multiset"
begin

section \<open>JavaScript values\<close>

text \<open>
  A JavaScript number is an IEEE 754 double: \<open>NaN\<close>, an infinity or a finite value, kept
  here as the rational it denotes. Reading a numeric literal and adding two numbers
  round the exact result to the nearest double, ties to the even significand, and to
  an infinity beyond the largest double. The two zeros are one value: the program
  tells them apart nowhere (JSON prints both as 0). The date operations compute on
  integers: every time value a \<open>Date\<close> can hold is an integer below \<open>2^53\<close>, where doubles
  are exact, and \<open>TimeClip\<close> rejects everything beyond.
\<close>

datatype jsnum = NaN | Fin rat | PosInf | NegInf

text \<open>
  \<open>bitLength n\<close> is the number of binary digits of \<open>n\<close>, \<open>pow2 k\<close> the power of two with
  exponent \<open>k\<close>, and \<open>floorLog2 a\<close>, for positive \<open>a\<close>, the exponent \<open>e\<close> with
  \<open>pow2 e \<le> a < pow2 (e + 1)\<close>.
\<close>

fun bitLength :: "nat \<Rightarrow> nat" where
  "bitLength n = (if n = 0 then 0 else Suc (bitLength (n div 2)))"

declare bitLength.simps [simp del]

definition pow2 :: "int \<Rightarrow> rat" where
  "pow2 k = (if 0 \<le> k then 2 ^ nat k else 1 / 2 ^ nat (- k))"

definition floorLog2 :: "rat \<Rightarrow> int" where
  "floorLog2 a =
     (if 1 \<le> a then int (bitLength (nat \<lfloor>a\<rfloor>)) - 1
      else - int (bitLength (nat (\<lceil>1 / a\<rceil> - 1))))"

definition roundHalfEven :: "rat \<Rightarrow> int" where
  "roundHalfEven x =
     (let f = \<lfloor>x\<rfloor>; d = x - of_int f
      in if d < 1 / 2 then f
         else if 1 / 2 < d then f + 1
         else if even f then f else f + 1)"

text \<open>
  The double nearest to a rational: a significand of 53 binary digits, or fewer below
  the smallest normal double (the least unit is \<open>pow2 (- 1074)\<close>); a result of
  \<open>pow2 1024\<close> or more is an infinity.
\<close>

definition roundToDouble :: "rat \<Rightarrow> jsnum" where
  "roundToDouble r =
     (if r = 0 then Fin 0
      else
        let a = \<bar>r\<bar>;
            e = floorLog2 a;
            q = max (e - 52) (- 1074);
            v = of_int (roundHalfEven (a / pow2 q)) * pow2 q
        in if pow2 1024 \<le> v then (if 0 < r then PosInf else NegInf)
           else Fin (if 0 < r then v else - v))"

text \<open>\<open>x + y\<close> on numbers.\<close>

definition js_plus :: "jsnum \<Rightarrow> jsnum \<Rightarrow> jsnum" where
  "js_plus x y =
     (case (x, y) of
        (Fin a, Fin b) \<Rightarrow> roundToDouble (a + b)
      | (NaN, other) \<Rightarrow> NaN
      | (other, NaN) \<Rightarrow> NaN
      | (PosInf, NegInf) \<Rightarrow> NaN
      | (NegInf, PosInf) \<Rightarrow> NaN
      | (PosInf, other) \<Rightarrow> PosInf
      | (NegInf, other) \<Rightarrow> NegInf
      | (other, PosInf) \<Rightarrow> PosInf
      | (other, NegInf) \<Rightarrow> NegInf)"

text \<open>
  A parsed JSON value, as \<open>express.json()\<close> leaves it in \<open>req.body\<close>; \<open>JNum\<close> holds the
  (finite) double a JSON number is parsed to.
\<close>

datatype json = JNull | JBool bool | JNum rat | JStr string
  | JArr "json list" | JObj "(string \<times> json) list"

text \<open>
  A property read from an object is \<open>None\<close> when the key is missing (\<open>undefined\<close>).
  \<open>truthy\<close> is ToBoolean; \<open>eq_null v\<close> is the test \<open>v == null\<close>.
\<close>

fun truthy :: "json option \<Rightarrow> bool" where
  "truthy None = False"
| "truthy (Some JNull) = False"
| "truthy (Some (JBool b)) = b"
| "truthy (Some (JNum n)) = (n \<noteq> 0)"
| "truthy (Some (JStr s)) = (s \<noteq> [])"
| "truthy (Some (JArr xs)) = True"
| "truthy (Some (JObj kvs)) = True"

definition eq_null :: "json option \<Rightarrow> bool" where
  "eq_null v \<longleftrightarrow> v = None \<or> v = Some JNull"

text \<open>\<open>a || b\<close> on property values.\<close>

definition js_or :: "json option \<Rightarrow> json option \<Rightarrow> json option" where
  "js_or a b = (if truthy a then a else b)"

subsection \<open>\<open>String.prototype.split\<close> with a one-character separator\<close>

fun split_on :: "char \<Rightarrow> string \<Rightarrow> string list" where
  "split_on c [] = [[]]"
| "split_on c (x # xs) =
     (if x = c then [] # split_on c xs
      else (case split_on c xs of [] \<Rightarrow> [[x]] | p # ps \<Rightarrow> (x # p) # ps))"

text \<open>Array destructuring \<open>[year, month] = parts\<close>: a missing element is \<open>undefined\<close>.\<close>

fun element :: "'a list \<Rightarrow> nat \<Rightarrow> 'a option" where
  "element [] i = None"
| "element (x # xs) 0 = Some x"
| "element (x # xs) (Suc i) = element xs i"

subsection \<open>\<open>Number(string)\<close>: StringToNumber\<close>

text \<open>
  Strings are sequences of code units below 256. The white space of the
  StringNumericLiteral grammar in that range: TAB, LF, VT, FF, CR, SP and NBSP.
\<close>

definition isStrWhiteSpaceChar :: "char \<Rightarrow> bool" where
  "isStrWhiteSpaceChar c \<longleftrightarrow> (of_char c :: nat) \<in> {9, 10, 11, 12, 13, 32, 160}"

definition trimString :: "string \<Rightarrow> string" where
  "trimString s = rev (dropWhile isStrWhiteSpaceChar (rev (dropWhile isStrWhiteSpaceChar s)))"

definition isDigit :: "char \<Rightarrow> bool" where
  "isDigit c \<longleftrightarrow> 48 \<le> (of_char c :: nat) \<and> (of_char c :: nat) \<le> 57"

text \<open>The value of a digit in a radix up to 16 (\<open>None\<close>: not a digit of that radix).\<close>

definition digitOfRadix :: "nat \<Rightarrow> char \<Rightarrow> nat option" where
  "digitOfRadix r c =
     (let n = (of_char c :: nat);
          v = (if 48 \<le> n \<and> n \<le> 57 then Some (n - 48)
               else if 97 \<le> n \<and> n \<le> 102 then Some (n - 87)
               else if 65 \<le> n \<and> n \<le> 70 then Some (n - 55)
               else None)
      in case v of None \<Rightarrow> None | Some d \<Rightarrow> if d < r then Some d else None)"

fun digitsValue :: "nat \<Rightarrow> nat \<Rightarrow> string \<Rightarrow> nat option" where
  "digitsValue r acc [] = Some acc"
| "digitsValue r acc (c # cs) =
     (case digitOfRadix r c of None \<Rightarrow> None | Some d \<Rightarrow> digitsValue r (r * acc + d) cs)"

text \<open>A non-empty run of digits of the radix, or \<open>None\<close>.\<close>

definition numeral_of :: "nat \<Rightarrow> string \<Rightarrow> nat option" where
  "numeral_of r s = (if s = [] then None else digitsValue r 0 s)"

text \<open>ExponentPart after its \<open>e\<close> or \<open>E\<close>: SignedInteger.\<close>

definition SignedInteger :: "string \<Rightarrow> int option" where
  "SignedInteger s =
     (case s of
        [] \<Rightarrow> None
      | c # cs \<Rightarrow>
          if c = CHR ''+'' then map_option int (numeral_of 10 cs)
          else if c = CHR ''-'' then map_option (\<lambda>n. - int n) (numeral_of 10 cs)
          else map_option int (numeral_of 10 s))"

definition scale10 :: "rat \<Rightarrow> int \<Rightarrow> rat" where
  "scale10 x e = (if 0 \<le> e then x * 10 ^ nat e else x / 10 ^ nat (- e))"

definition StrUnsignedDecimalLiteral :: "string \<Rightarrow> jsnum" where
  "StrUnsignedDecimalLiteral s =
     (if s = ''Infinity'' then PosInf
      else
        let ip = takeWhile isDigit s;
            r1 = dropWhile isDigit s;
            fp = (case r1 of [] \<Rightarrow> [] | c # r \<Rightarrow> if c = CHR ''.'' then takeWhile isDigit r else []);
            r2 = (case r1 of [] \<Rightarrow> [] | c # r \<Rightarrow> if c = CHR ''.'' then dropWhile isDigit r else r1);
            ex = (case r2 of
                    [] \<Rightarrow> Some 0
                  | c # r \<Rightarrow> if c = CHR ''e'' \<or> c = CHR ''E'' then SignedInteger r else None)
        in if ip = [] \<and> fp = [] then NaN
           else (case (digitsValue 10 0 ip, digitsValue 10 0 fp, ex) of
                   (Some i, Some f, Some e) \<Rightarrow>
                     roundToDouble (scale10 (of_nat i + of_nat f / 10 ^ length fp) e)
                 | _ \<Rightarrow> NaN))"

definition negate :: "jsnum \<Rightarrow> jsnum" where
  "negate x = (case x of NaN \<Rightarrow> NaN | Fin r \<Rightarrow> Fin (- r) | PosInf \<Rightarrow> NegInf | NegInf \<Rightarrow> PosInf)"

definition StrDecimalLiteral :: "string \<Rightarrow> jsnum" where
  "StrDecimalLiteral s =
     (case s of
        [] \<Rightarrow> NaN
      | c # cs \<Rightarrow>
          if c = CHR ''+'' then StrUnsignedDecimalLiteral cs
          else if c = CHR ''-'' then negate (StrUnsignedDecimalLiteral cs)
          else StrUnsignedDecimalLiteral s)"

text \<open>NonDecimalIntegerLiteral: \<open>0x\<close>, \<open>0o\<close>, \<open>0b\<close> (either case) and digits of the radix.\<close>

definition NonDecimalIntegerLiteral :: "string \<Rightarrow> nat option" where
  "NonDecimalIntegerLiteral s =
     (case s of
        c0 # c1 # ds \<Rightarrow>
          if c0 \<noteq> CHR ''0'' then None
          else if c1 = CHR ''x'' \<or> c1 = CHR ''X'' then numeral_of 16 ds
          else if c1 = CHR ''o'' \<or> c1 = CHR ''O'' then numeral_of 8 ds
          else if c1 = CHR ''b'' \<or> c1 = CHR ''B'' then numeral_of 2 ds
          else None
      | _ \<Rightarrow> None)"

definition StringToNumber :: "string \<Rightarrow> jsnum" where
  "StringToNumber s =
     (let t = trimString s
      in if t = [] then Fin 0
         else (case NonDecimalIntegerLiteral t of
                 Some n \<Rightarrow> roundToDouble (of_nat n)
               | None \<Rightarrow> StrDecimalLiteral t))"

text \<open>ToNumber of an array element that may be missing: \<open>undefined\<close> becomes \<open>NaN\<close>.\<close>

definition ToNumber :: "jsnum option \<Rightarrow> jsnum" where
  "ToNumber v = (case v of None \<Rightarrow> NaN | Some n \<Rightarrow> n)"

text \<open>\<open>x + k\<close> and \<open>x - k\<close> for a numeric literal \<open>k\<close>.\<close>

definition js_add :: "jsnum \<Rightarrow> rat \<Rightarrow> jsnum" where
  "js_add x k = js_plus x (Fin k)"

definition trunc :: "rat \<Rightarrow> int" where
  "trunc r = (if r < 0 then \<lceil>r\<rceil> else \<lfloor>r\<rfloor>)"

section \<open>ECMAScript dates\<close>

text \<open>
  The host: what the program takes from its JavaScript engine and from Mongoose rather
  than from its own code.
  \<^item> \<open>LocalTZA t isUTC\<close> is the local time zone adjustment of ECMAScript, in
    milliseconds: the offset at UTC time \<open>t\<close> when \<open>isUTC\<close>, at local time \<open>t\<close>
    otherwise.
  \<^item> \<open>Date_parse v\<close> is the time value \<open>new Date(v)\<close> gets for a string, array or object
    \<open>v\<close>: \<open>Date.parse\<close> of its primitive string (\<open>None\<close>: \<open>NaN\<close>).
  \<^item> \<open>SchemaString_cast\<close> and \<open>SchemaNumber_cast\<close> are Mongoose's coercions of a value that
    is not of the path's own type (\<open>None\<close>: a CastError).
  \<^item> \<open>ObjectId_cast\<close> reads a request's identifier string as an ObjectId, here its 96-bit
    value (\<open>None\<close>: malformed, a CastError).
  \<^item> \<open>Sum_accumulator\<close> is the store's \<open>$sum\<close> over the amounts of one group, in stored
    order: how the store adds doubles (one by one, or with a compensated summation that
    rounds once) is its own.
\<close>

record host =
  LocalTZA :: "int \<Rightarrow> bool \<Rightarrow> int"
  Date_parse :: "json \<Rightarrow> int option"
  SchemaString_cast :: "json \<Rightarrow> string option"
  SchemaNumber_cast :: "json \<Rightarrow> rat option"
  ObjectId_cast :: "string \<Rightarrow> nat option"
  Sum_accumulator :: "rat list \<Rightarrow> jsnum"

text \<open>The DateValue of a Date object: a time value, or \<open>None\<close> for an Invalid Date.\<close>

type_synonym Date = "int option"

definition msPerDay :: int where "msPerDay = 86400000"

definition maxTime :: int where "maxTime = 8640000000000000"

definition Day :: "int \<Rightarrow> int" where
  "Day t = t div msPerDay"

definition TimeWithinDay :: "int \<Rightarrow> int" where
  "TimeWithinDay t = t mod msPerDay"

definition DaysInYear :: "int \<Rightarrow> int" where
  "DaysInYear y =
     (if y mod 4 \<noteq> 0 then 365 else if y mod 100 \<noteq> 0 then 366
      else if y mod 400 \<noteq> 0 then 365 else 366)"

definition DayFromYear :: "int \<Rightarrow> int" where
  "DayFromYear y =
     365 * (y - 1970) + (y - 1969) div 4 - (y - 1901) div 100 + (y - 1601) div 400"

definition TimeFromYear :: "int \<Rightarrow> int" where
  "TimeFromYear y = msPerDay * DayFromYear y"

text \<open>
  ECMAScript: YearFromTime(t) is the largest integer \<open>y\<close> with TimeFromYear(y) \<open>\<le>\<close> t.
  It is computed from an estimate that is at most one year too late
  (\<open>YearFromTime_largest\<close> below proves the characterisation).
\<close>

definition YearFromDay :: "int \<Rightarrow> int" where
  "YearFromDay d =
     (let y = 1970 + (400 * d + 506) div 146097
      in if DayFromYear y \<le> d then y else y - 1)"

definition YearFromTime :: "int \<Rightarrow> int" where
  "YearFromTime t = YearFromDay (Day t)"

definition InLeapYear :: "int \<Rightarrow> int" where
  "InLeapYear t = (if DaysInYear (YearFromTime t) = 365 then 0 else 1)"

definition DayWithinYear :: "int \<Rightarrow> int" where
  "DayWithinYear t = Day t - DayFromYear (YearFromTime t)"

definition MonthFromTime :: "int \<Rightarrow> int" where
  "MonthFromTime t =
     (let d = DayWithinYear t; l = InLeapYear t
      in if d < 31 then 0
         else if d < 59 + l then 1
         else if d < 90 + l then 2
         else if d < 120 + l then 3
         else if d < 151 + l then 4
         else if d < 181 + l then 5
         else if d < 212 + l then 6
         else if d < 243 + l then 7
         else if d < 273 + l then 8
         else if d < 304 + l then 9
         else if d < 334 + l then 10
         else 11)"

definition DateFromTime :: "int \<Rightarrow> int" where
  "DateFromTime t =
     (let d = DayWithinYear t; l = InLeapYear t; m = MonthFromTime t
      in if m = 0 then d + 1
         else if m = 1 then d - 30
         else if m = 2 then d - 58 - l
         else if m = 3 then d - 89 - l
         else if m = 4 then d - 119 - l
         else if m = 5 then d - 150 - l
         else if m = 6 then d - 180 - l
         else if m = 7 then d - 211 - l
         else if m = 8 then d - 242 - l
         else if m = 9 then d - 272 - l
         else if m = 10 then d - 303 - l
         else d - 333 - l)"

text \<open>The day number, within its year, of the first day of month \<open>m\<close> (0 to 11).\<close>

definition DayFromMonth :: "int \<Rightarrow> int \<Rightarrow> int" where
  "DayFromMonth m y =
     (let l = (if DaysInYear y = 365 then 0 else 1)
      in if m = 0 then 0
         else if m = 1 then 31
         else if m = 2 then 59 + l
         else if m = 3 then 90 + l
         else if m = 4 then 120 + l
         else if m = 5 then 151 + l
         else if m = 6 then 181 + l
         else if m = 7 then 212 + l
         else if m = 8 then 243 + l
         else if m = 9 then 273 + l
         else if m = 10 then 304 + l
         else 334 + l)"

text \<open>
  MakeDay(year, month, date): \<open>NaN\<close> unless all three are finite; otherwise the day number
  of the first day of month \<open>m mod 12\<close> of year \<open>y + floor(m / 12)\<close>, plus \<open>dt - 1\<close>.
\<close>

definition MakeDay :: "jsnum \<Rightarrow> jsnum \<Rightarrow> jsnum \<Rightarrow> int option" where
  "MakeDay year month date =
     (case (year, month, date) of
        (Fin yf, Fin mf, Fin df) \<Rightarrow>
          let y = trunc yf; m = trunc mf; dt = trunc df;
              ym = y + m div 12;
              mn = m mod 12
          in Some (DayFromYear ym + DayFromMonth mn ym + dt - 1)
      | _ \<Rightarrow> None)"

definition MakeDate :: "int option \<Rightarrow> int option \<Rightarrow> int option" where
  "MakeDate day time =
     (case (day, time) of (Some d, Some tm) \<Rightarrow> Some (d * msPerDay + tm) | _ \<Rightarrow> None)"

definition MakeTime :: "int \<Rightarrow> int \<Rightarrow> int \<Rightarrow> int \<Rightarrow> int option" where
  "MakeTime hour minute sec ms = Some (hour * 3600000 + minute * 60000 + sec * 1000 + ms)"

definition LocalTime :: "host \<Rightarrow> int \<Rightarrow> int" where
  "LocalTime h t = t + LocalTZA h t True"

definition UTC :: "host \<Rightarrow> int \<Rightarrow> int" where
  "UTC h t = t - LocalTZA h t False"

definition TimeClip :: "int option \<Rightarrow> Date" where
  "TimeClip time =
     (case time of None \<Rightarrow> None | Some t \<Rightarrow> if \<bar>t\<bar> > maxTime then None else Some t)"

text \<open>
  \<open>new Date(year, month, date)\<close>: a year from 0 to 99 stands for 1900 + year; the
  components are read in local time.
\<close>

definition new_Date_ymd :: "host \<Rightarrow> jsnum \<Rightarrow> jsnum \<Rightarrow> jsnum \<Rightarrow> Date" where
  "new_Date_ymd h y m dt =
     (let yr = (case y of
                  Fin yf \<Rightarrow> if 0 \<le> trunc yf \<and> trunc yf \<le> 99 then Fin (1900 + of_int (trunc yf)) else y
                | other \<Rightarrow> other);
          finalDate = MakeDate (MakeDay yr m dt) (MakeTime 0 0 0 0)
      in TimeClip (map_option (UTC h) finalDate))"

definition getFullYear :: "host \<Rightarrow> Date \<Rightarrow> jsnum" where
  "getFullYear h d = (case d of None \<Rightarrow> NaN | Some t \<Rightarrow> Fin (of_int (YearFromTime (LocalTime h t))))"

definition getMonth :: "host \<Rightarrow> Date \<Rightarrow> jsnum" where
  "getMonth h d = (case d of None \<Rightarrow> NaN | Some t \<Rightarrow> Fin (of_int (MonthFromTime (LocalTime h t))))"

definition getDate :: "host \<Rightarrow> Date \<Rightarrow> jsnum" where
  "getDate h d = (case d of None \<Rightarrow> NaN | Some t \<Rightarrow> Fin (of_int (DateFromTime (LocalTime h t))))"

text \<open>\<open>d.setMonth(month)\<close>: the new DateValue of \<open>d\<close>.\<close>

definition setMonth :: "host \<Rightarrow> Date \<Rightarrow> jsnum \<Rightarrow> Date" where
  "setMonth h d month =
     (case d of
        None \<Rightarrow> None
      | Some tv \<Rightarrow>
          let t = LocalTime h tv;
              newDate = MakeDate (MakeDay (Fin (of_int (YearFromTime t))) month
                                          (Fin (of_int (DateFromTime t))))
                                 (Some (TimeWithinDay t))
          in TimeClip (map_option (UTC h) newDate))"

text \<open>
  \<open>new Date(value)\<close> for a JSON value or \<open>undefined\<close>: a number (a boolean, \<open>null\<close>) is a
  time value, clipped and truncated as TimeClip does; anything else is parsed by the
  host.
\<close>

definition new_Date_value :: "host \<Rightarrow> json option \<Rightarrow> Date" where
  "new_Date_value h v =
     (case v of
        None \<Rightarrow> None
      | Some JNull \<Rightarrow> Some 0
      | Some (JBool b) \<Rightarrow> Some (if b then 1 else 0)
      | Some (JNum n) \<Rightarrow> if \<bar>n\<bar> > of_int maxTime then None else Some (trunc n)
      | Some w \<Rightarrow> TimeClip (Date_parse h w))"

section \<open>The month-range helper (src/index.js, lines 18 to 30)\<close>

text \<open>
  \<open>now\<close> is the clock reading of \<open>new Date()\<close>. The argument is \<open>req.query.month\<close>: a
  string, or \<open>None\<close> when the query has no \<open>month\<close> (a repeated or bracketed
  parameter, which the query parser turns into an array or an object, is not
  modelled). The result is the pair \<open>(start, end)\<close>.
\<close>

definition getMonthRange :: "host \<Rightarrow> int \<Rightarrow> string option \<Rightarrow> Date \<times> Date" where
  "getMonthRange h now yyyymm =
     (let fromNow = (let now' = Some now
                     in new_Date_ymd h (getFullYear h now') (getMonth h now') (Fin 1));
          start =
            (case yyyymm of
               None \<Rightarrow> fromNow
             | Some s \<Rightarrow>
                 if s \<noteq> []
                 then (let parts = map StringToNumber (split_on CHR ''-'' s);
                           year = ToNumber (element parts 0);
                           month = ToNumber (element parts 1)
                       in new_Date_ymd h year (js_add month (- 1)) (Fin 1))
                 else fromNow);
          end' = start;
          end'' = setMonth h end' (js_add (getMonth h end') 1)
      in (start, end''))"

text \<open>
  Notions the statements below use. \<open>firstOfMonth y m\<close> is the local time value of the
  first instant of month \<open>m\<close> (0 to 11) of year \<open>y\<close>. A local time value is
  representable on a host when the instant it denotes is within the range of a Date and
  reads back as the same local time (it does not fall into a gap of the time zone).
  \<open>localParts\<close> is what a Date shows in local time: year, month (0 to 11), day of the
  month and milliseconds since midnight.
\<close>

definition firstOfMonth :: "int \<Rightarrow> int \<Rightarrow> int" where
  "firstOfMonth y m = (DayFromYear y + DayFromMonth m y) * msPerDay"

definition representable :: "host \<Rightarrow> int \<Rightarrow> bool" where
  "representable h t \<longleftrightarrow> \<bar>UTC h t\<bar> \<le> maxTime \<and> LocalTime h (UTC h t) = t"

definition localParts :: "host \<Rightarrow> Date \<Rightarrow> (int \<times> int \<times> int \<times> int) option" where
  "localParts h d =
     map_option (\<lambda>tv. let t = LocalTime h tv
                      in (YearFromTime t, MonthFromTime t, DateFromTime t, TimeWithinDay t)) d"

definition nextMonth :: "int \<times> int \<Rightarrow> int \<times> int" where
  "nextMonth ym = (if snd ym = 11 then (fst ym + 1, 0) else (fst ym, snd ym + 1))"

section \<open>The document store\<close>

text \<open>
  A stored record (src/models/spend.js): the schema's five paths, the identifier \<open>_id\<close>
  (here \<open>doc_id\<close>) and the two timestamps of \<open>timestamps: true\<close>. Amounts are finite
  doubles; dates and timestamps are time values. A collection is the list of its
  documents in insertion order.
\<close>

record doc =
  doc_id :: nat
  name :: string
  sector :: string
  amount :: rat
  note_text :: "string option"
  date :: int
  createdAt :: int
  updatedAt :: int

datatype store_error = CastError | ValidationError | DuplicateKey

text \<open>The object literal a handler passes to \<open>Model.create\<close>.\<close>

record candidate =
  c_name :: "json option"
  c_sector :: "json option"
  c_amount :: "json option"
  c_note :: "json option"
  c_date :: Date

text \<open>
  Casting to the type of a schema path. A value of the path's own type is taken as it
  is, \<open>null\<close> and \<open>undefined\<close> stay empty, every other value goes through the host's
  coercion.
\<close>

datatype 'a cast = CastFailed | Null | Value 'a

definition castString :: "host \<Rightarrow> json option \<Rightarrow> string cast" where
  "castString h v =
     (case v of
        None \<Rightarrow> Null
      | Some JNull \<Rightarrow> Null
      | Some (JStr s) \<Rightarrow> Value s
      | Some w \<Rightarrow> (case SchemaString_cast h w of None \<Rightarrow> CastFailed | Some s \<Rightarrow> Value s))"

definition castNumber :: "host \<Rightarrow> json option \<Rightarrow> rat cast" where
  "castNumber h v =
     (case v of
        None \<Rightarrow> Null
      | Some JNull \<Rightarrow> Null
      | Some (JNum n) \<Rightarrow> Value n
      | Some w \<Rightarrow>
          if w = JStr [] then Null
          else (case SchemaNumber_cast h w of None \<Rightarrow> CastFailed | Some n \<Rightarrow> Value n))"

text \<open>A Date object is accepted unless it is an Invalid Date.\<close>

definition castDate :: "Date \<Rightarrow> int cast" where
  "castDate d = (case d of None \<Rightarrow> CastFailed | Some t \<Rightarrow> Value t)"

text \<open>
  SpendSchema: \<open>name\<close> and \<open>sector\<close> are required strings (a required string is not
  empty), \<open>amount\<close> is a required number, \<open>note\<close> an optional string, \<open>date\<close> a date. The
  handlers always pass a Date object, so the schema's default \<open>Date.now\<close> never applies.
  \<open>oid\<close> is the identifier generated for the new document, \<open>now\<close> the clock reading
  that stamps it.
\<close>

definition SpendSchema :: "host \<Rightarrow> int \<Rightarrow> nat \<Rightarrow> candidate \<Rightarrow> store_error + doc" where
  "SpendSchema h now oid c =
     (case (castString h (c_name c), castString h (c_sector c), castNumber h (c_amount c)) of
        (Value n, Value s, Value a) \<Rightarrow>
          (case (castString h (c_note c), castDate (c_date c)) of
             (CastFailed, dt) \<Rightarrow> Inl ValidationError
           | (nt, CastFailed) \<Rightarrow> Inl ValidationError
           | (nt, Null) \<Rightarrow> Inl ValidationError
           | (nt, Value t) \<Rightarrow>
               if n = [] \<or> s = [] then Inl ValidationError
               else Inr \<lparr>doc_id = oid, name = n, sector = s, amount = a,
                          note_text = (case nt of Value x \<Rightarrow> Some x | other \<Rightarrow> None),
                          date = t, createdAt = now, updatedAt = now\<rparr>)
      | other \<Rightarrow> Inl ValidationError)"

text \<open>
  Modelled from the spec: src/models/income.js, which src/index.js imports, is not among
  the sources. The spec's data model (section 3) has one entity, the transaction record,
  with the two instances Spend and Income "structurally identical".
\<close>

definition IncomeSchema :: "host \<Rightarrow> int \<Rightarrow> nat \<Rightarrow> candidate \<Rightarrow> store_error + doc" where
  "IncomeSchema h now oid c = SpendSchema h now oid c"

text \<open>
  \<open>Model.create\<close>: cast and validate, then insert. The store keeps identifiers unique.
\<close>

definition Model_create ::
  "(candidate \<Rightarrow> store_error + doc) \<Rightarrow> doc list \<Rightarrow> candidate \<Rightarrow> store_error + (doc \<times> doc list)" where
  "Model_create schema coll c =
     (case schema c of
        Inl e \<Rightarrow> Inl e
      | Inr d \<Rightarrow>
          if doc_id d \<in> doc_id ` set coll then Inl DuplicateKey
          else Inr (d, coll @ [d]))"

text \<open>
  \<open>Model.aggregate\<close> with the pipeline of the summary handlers. A pipeline is not cast
  against the schema; the driver sends a Date as its time value, and an Invalid Date as
  time value 0. \<open>$group\<close> returns one row for each sector among the matched records,
  with the store's \<open>$sum\<close> of that sector's amounts. The order of the rows is not
  specified by the store; here it is the order of first occurrence.
\<close>

definition bson_date :: "Date \<Rightarrow> int" where
  "bson_date d = (case d of None \<Rightarrow> 0 | Some t \<Rightarrow> t)"

definition match_date :: "Date \<Rightarrow> Date \<Rightarrow> doc \<Rightarrow> bool" where
  "match_date start end' d \<longleftrightarrow> bson_date start \<le> date d \<and> date d < bson_date end'"

fun first_occurrences :: "'a list \<Rightarrow> 'a list" where
  "first_occurrences [] = []"
| "first_occurrences (x # xs) = x # filter (\<lambda>y. y \<noteq> x) (first_occurrences xs)"

definition group_by_sector :: "host \<Rightarrow> doc list \<Rightarrow> (string \<times> jsnum) list" where
  "group_by_sector h ds =
     map (\<lambda>k. (k, Sum_accumulator h (map amount (filter (\<lambda>d. sector d = k) ds))))
       (first_occurrences (map sector ds))"

definition Model_aggregate :: "host \<Rightarrow> doc list \<Rightarrow> Date \<Rightarrow> Date \<Rightarrow> (string \<times> jsnum) list" where
  "Model_aggregate h coll start end' = group_by_sector h (filter (match_date start end') coll)"

text \<open>
  \<open>Model.find({sector, date: {$gte: start, $lt: end}}).sort({date: -1})\<close>. A query is
  cast against the schema, and the cast of an Invalid Date fails. The store leaves the
  order of records with equal dates open; here they keep their insertion order.
\<close>

definition Model_find_sorted ::
  "doc list \<Rightarrow> string \<Rightarrow> Date \<Rightarrow> Date \<Rightarrow> store_error + doc list" where
  "Model_find_sorted coll sec start end' =
     (case (castDate start, castDate end') of
        (Value s, Value e) \<Rightarrow>
          Inr (sort_key (\<lambda>d. - date d)
                 (filter (\<lambda>d. sector d = sec \<and> s \<le> date d \<and> date d < e) coll))
      | other \<Rightarrow> Inl CastError)"

definition Model_findById :: "host \<Rightarrow> doc list \<Rightarrow> string \<Rightarrow> store_error + doc option" where
  "Model_findById h coll ident =
     (case ObjectId_cast h ident of
        None \<Rightarrow> Inl CastError
      | Some oid \<Rightarrow> Inr (find (\<lambda>d. doc_id d = oid) coll))"

definition Model_findByIdAndDelete ::
  "host \<Rightarrow> doc list \<Rightarrow> string \<Rightarrow> store_error + (doc option \<times> doc list)" where
  "Model_findByIdAndDelete h coll ident =
     (case ObjectId_cast h ident of
        None \<Rightarrow> Inl CastError
      | Some oid \<Rightarrow>
          (case find (\<lambda>d. doc_id d = oid) coll of
             None \<Rightarrow> Inr (None, coll)
           | Some d \<Rightarrow> Inr (Some d, remove1 d coll)))"

section \<open>The route handlers (src/index.js)\<close>

text \<open>
  The two collections, the request body of a create, and a response: its status and its
  JSON body. A handler takes the host, the clock reading \<open>now\<close> and, for a create, the
  identifier \<open>oid\<close> generated for the new document (the two clock readings of one create,
  in the handler and in the timestamps, are taken as one). A thrown store error is
  caught by the handler's \<open>catch\<close> and answered with 500; failures of the connection
  itself are not modelled. \<open>req.query.month\<close> is a string, or \<open>None\<close> when absent.
\<close>

record db =
  spends :: "doc list"
  incomes :: "doc list"

record create_body =
  body_name :: "json option"
  body_sector :: "json option"
  body_amount :: "json option"
  body_note :: "json option"
  body_date :: "json option"

datatype body =
    ErrorJson string
  | DocJson doc
  | DocsJson "doc list"
  | SummaryJson jsnum "(string \<times> jsnum) list"
  | OkJson
  | TextBody string

datatype response = Response nat body

definition get_root :: response where
  "get_root = Response 200 (TextBody ''Edolog backend running'')"

subsection \<open>Spends (lines 54 to 149)\<close>

definition post_spends :: "host \<Rightarrow> int \<Rightarrow> nat \<Rightarrow> create_body \<Rightarrow> db \<Rightarrow> response \<times> db" where
  "post_spends h now oid b db =
     (if \<not> truthy (body_name b) \<or> \<not> truthy (body_sector b) \<or> eq_null (body_amount b)
      then (Response 400 (ErrorJson ''name, sector, amount required''), db)
      else
        (case Model_create (SpendSchema h now oid) (spends db)
                \<lparr>c_name = body_name b,
                 c_sector = body_sector b,
                 c_amount = body_amount b,
                 c_note = js_or (body_note b) (Some (JStr [])),
                 c_date = (if truthy (body_date b) then new_Date_value h (body_date b)
                           else Some now)\<rparr> of
           Inr (spend, coll) \<Rightarrow> (Response 201 (DocJson spend), db\<lparr>spends := coll\<rparr>)
         | Inl err \<Rightarrow> (Response 500 (ErrorJson ''Server error''), db)))"

definition get_spends_summary :: "host \<Rightarrow> int \<Rightarrow> string option \<Rightarrow> db \<Rightarrow> response" where
  "get_spends_summary h now month db =
     (let (start, end') = getMonthRange h now month;
          result = Model_aggregate h (spends db) start end';
          total = foldl (\<lambda>sum r. js_plus sum (snd r)) (Fin 0) result;
          bySector = map (\<lambda>r. (fst r, snd r)) result
      in Response 200 (SummaryJson total bySector))"

definition get_sector_spends :: "host \<Rightarrow> int \<Rightarrow> string \<Rightarrow> string option \<Rightarrow> db \<Rightarrow> response" where
  "get_sector_spends h now sec month db =
     (let (start, end') = getMonthRange h now month
      in case Model_find_sorted (spends db) sec start end' of
           Inr found \<Rightarrow> Response 200 (DocsJson found)
         | Inl err \<Rightarrow> Response 500 (ErrorJson ''Server error''))"

definition get_spend :: "host \<Rightarrow> string \<Rightarrow> db \<Rightarrow> response" where
  "get_spend h ident db =
     (case Model_findById h (spends db) ident of
        Inl err \<Rightarrow> Response 500 (ErrorJson ''Server error'')
      | Inr None \<Rightarrow> Response 404 (ErrorJson ''Not found'')
      | Inr (Some spend) \<Rightarrow> Response 200 (DocJson spend))"

definition delete_spend :: "host \<Rightarrow> string \<Rightarrow> db \<Rightarrow> response \<times> db" where
  "delete_spend h ident db =
     (case Model_findByIdAndDelete h (spends db) ident of
        Inl err \<Rightarrow> (Response 500 (ErrorJson ''Server error''), db)
      | Inr (None, coll) \<Rightarrow> (Response 404 (ErrorJson ''Not found''), db)
      | Inr (Some removed, coll) \<Rightarrow> (Response 200 OkJson, db\<lparr>spends := coll\<rparr>))"

subsection \<open>Incomes (lines 154 to 249)\<close>

definition post_incomes :: "host \<Rightarrow> int \<Rightarrow> nat \<Rightarrow> create_body \<Rightarrow> db \<Rightarrow> response \<times> db" where
  "post_incomes h now oid b db =
     (if \<not> truthy (body_name b) \<or> \<not> truthy (body_sector b) \<or> eq_null (body_amount b)
      then (Response 400 (ErrorJson ''name, sector, amount required''), db)
      else
        (case Model_create (IncomeSchema h now oid) (incomes db)
                \<lparr>c_name = body_name b,
                 c_sector = body_sector b,
                 c_amount = body_amount b,
                 c_note = js_or (body_note b) (Some (JStr [])),
                 c_date = (if truthy (body_date b) then new_Date_value h (body_date b)
                           else Some now)\<rparr> of
           Inr (income, coll) \<Rightarrow> (Response 201 (DocJson income), db\<lparr>incomes := coll\<rparr>)
         | Inl err \<Rightarrow> (Response 500 (ErrorJson ''Server error''), db)))"

definition get_incomes_summary :: "host \<Rightarrow> int \<Rightarrow> string option \<Rightarrow> db \<Rightarrow> response" where
  "get_incomes_summary h now month db =
     (let (start, end') = getMonthRange h now month;
          result = Model_aggregate h (incomes db) start end';
          total = foldl (\<lambda>sum r. js_plus sum (snd r)) (Fin 0) result;
          bySector = map (\<lambda>r. (fst r, snd r)) result
      in Response 200 (SummaryJson total bySector))"

definition get_sector_incomes :: "host \<Rightarrow> int \<Rightarrow> string \<Rightarrow> string option \<Rightarrow> db \<Rightarrow> response" where
  "get_sector_incomes h now sec month db =
     (let (start, end') = getMonthRange h now month
      in case Model_find_sorted (incomes db) sec start end' of
           Inr found \<Rightarrow> Response 200 (DocsJson found)
         | Inl err \<Rightarrow> Response 500 (ErrorJson ''Server error''))"

definition get_income :: "host \<Rightarrow> string \<Rightarrow> db \<Rightarrow> response" where
  "get_income h ident db =
     (case Model_findById h (incomes db) ident of
        Inl err \<Rightarrow> Response 500 (ErrorJson ''Server error'')
      | Inr None \<Rightarrow> Response 404 (ErrorJson ''Not found'')
      | Inr (Some income) \<Rightarrow> Response 200 (DocJson income))"

definition delete_income :: "host \<Rightarrow> string \<Rightarrow> db \<Rightarrow> response \<times> db" where
  "delete_income h ident db =
     (case Model_findByIdAndDelete h (incomes db) ident of
        Inl err \<Rightarrow> (Response 500 (ErrorJson ''Server error''), db)
      | Inr (None, coll) \<Rightarrow> (Response 404 (ErrorJson ''Not found''), db)
      | Inr (Some removed, coll) \<Rightarrow> (Response 200 OkJson, db\<lparr>incomes := coll\<rparr>))"

text \<open>Exchanging the two collections, to compare the two families of handlers.\<close>

definition swap_db :: "db \<Rightarrow> db" where
  "swap_db db = \<lparr>spends = incomes db, incomes = spends db\<rparr>"

text \<open>
  A host for concrete evaluations: a time zone at a fixed offset (in milliseconds), a
  date parser and coercions that accept nothing, identifiers of 24 hexadecimal
  digits, and a store that adds the amounts of a group one by one.
\<close>

definition fixed_offset_host :: "int \<Rightarrow> host" where
  "fixed_offset_host off =
     \<lparr>LocalTZA = (\<lambda>t isUTC. off),
      Date_parse = (\<lambda>v. None),
      SchemaString_cast = (\<lambda>v. None),
      SchemaNumber_cast = (\<lambda>v. None),
      ObjectId_cast = (\<lambda>s. if length s = 24 then numeral_of 16 s else None),
      Sum_accumulator = (\<lambda>xs. foldl js_plus (Fin 0) (map Fin xs))\<rparr>"

text \<open>Sample records for concrete evaluations.\<close>

definition sample_doc :: "nat \<Rightarrow> string \<Rightarrow> string \<Rightarrow> rat \<Rightarrow> int \<Rightarrow> doc" where
  "sample_doc i n s a t =
     \<lparr>doc_id = i, name = n, sector = s, amount = a, note_text = Some [], date = t,
      createdAt = t, updatedAt = t\<rparr>"

definition sample_db :: db where
  "sample_db =
     \<lparr>spends = [sample_doc 1 ''Coffee'' ''Food'' (9 / 2) 1707000000000,
                sample_doc 2 ''Rent'' ''Home'' 800 1706800000000,
                sample_doc 3 ''Lunch'' ''Food'' 12 1708000000000,
                sample_doc 4 ''Dinner'' ''Food'' 30 1700000000000],
      incomes = [sample_doc 5 ''Salary'' ''Work'' 2500 1706900000000]\<rparr>"


section \<open>Doubles\<close>

text \<open>
  Every integer of magnitude at most \<open>2^53\<close> is a double, so reading it and adding within
  that range are exact.
\<close>

lemma floor_rat_numeral:
  "\<lfloor>numeral a / numeral b :: rat\<rfloor> = numeral a div numeral b"
  "\<lfloor>1 / numeral b :: rat\<rfloor> = 1 div numeral b"
  using floor_divide_of_int_eq[of "numeral a" "numeral b", where ?'a = rat]
    floor_divide_of_int_eq[of 1 "numeral b", where ?'a = rat]
  by simp_all

lemma ceiling_rat_numeral:
  "\<lceil>numeral a / numeral b :: rat\<rceil> = - (- numeral a div numeral b)"
  "\<lceil>1 / numeral b :: rat\<rceil> = - (- 1 div numeral b)"
  using ceiling_divide_eq_div[of "numeral a" "numeral b", where ?'a = rat]
    ceiling_divide_eq_div[of 1 "numeral b", where ?'a = rat]
  by simp_all

lemma roundToDouble_pos:
  assumes "0 < r" and "floorLog2 r = e" and "max (e - 52) (- 1074) = q"
    and "roundHalfEven (r / pow2 q) = n" and "of_int n * pow2 q = v" and "v < pow2 1024"
  shows "roundToDouble r = Fin v"
  using assms by (simp add: roundToDouble_def Let_def)

lemma bitLength_bounds:
  "0 < n \<Longrightarrow> 2 ^ (bitLength n - 1) \<le> n \<and> n < 2 ^ bitLength n"
proof (induction n rule: bitLength.induct)
  case (1 n)
  show ?case
  proof (cases "n div 2 = 0")
    case True
    with "1.prems" have "n = 1" by (simp add: div_eq_0_iff)
    then show ?thesis by (simp add: bitLength.simps)
  next
    case False
    then have pos: "0 < n div 2" by simp
    have ih: "2 ^ (bitLength (n div 2) - 1) \<le> n div 2 \<and> n div 2 < 2 ^ bitLength (n div 2)"
      using "1.IH" "1.prems" pos by simp
    have bl: "bitLength n = Suc (bitLength (n div 2))"
      using "1.prems" by (subst bitLength.simps) simp
    have bp: "0 < bitLength (n div 2)" using pos by (subst bitLength.simps) simp
    then obtain k where k: "bitLength (n div 2) = Suc k" by (cases "bitLength (n div 2)") auto
    define d where "d = n div 2"
    define m where "m = (2::nat) ^ k"
    have dn: "2 * d \<le> n" "n < 2 * d + 2" by (simp_all add: d_def)
    have dm: "m \<le> d" "d < 2 * m" using ih k by (simp_all add: d_def m_def)
    have lo: "2 * 2 ^ k \<le> n" using dn dm unfolding m_def[symmetric] by linarith
    have hi: "n < 2 * (2 * 2 ^ k)" using dn dm unfolding m_def[symmetric] by linarith
    show ?thesis using lo hi by (simp add: bl k)
  qed
qed

lemma roundHalfEven_of_int [simp]: "roundHalfEven (of_int k) = k"
  by (simp add: roundHalfEven_def)

lemma pow2_nonneg: "0 \<le> k \<Longrightarrow> pow2 k = 2 ^ nat k"
  by (simp add: pow2_def)

lemma roundToDouble_nat:
  assumes "n \<le> 2 ^ 53"
  shows "roundToDouble (of_nat n) = Fin (of_nat n)"
proof (cases "n = 0")
  case True
  then show ?thesis by (simp add: roundToDouble_def)
next
  case False
  then have pos: "0 < n" by simp
  define b where "b = bitLength n"
  have bounds: "2 ^ (b - 1) \<le> n" "n < 2 ^ b"
    using bitLength_bounds[OF pos] by (simp_all add: b_def)
  have bpos: "0 < b" using pos unfolding b_def by (subst bitLength.simps) simp
  have r1: "(1::rat) \<le> of_nat n" using pos by simp
  have fl: "floorLog2 (of_nat n) = int b - 1"
    using r1 by (simp add: floorLog2_def b_def)
  have "(2::nat) ^ (b - 1) \<le> 2 ^ 53" by (rule order_trans[OF bounds(1) assms])
  then have b53: "b - 1 \<le> 53" by (rule power_le_imp_le_exp[rotated]) simp
  have v: "of_int (roundHalfEven (of_nat n / pow2 (max (int b - 1 - 52) (- 1074))))
            * pow2 (max (int b - 1 - 52) (- 1074)) = (of_nat n :: rat)"
  proof (cases "b - 1 = 53")
    case True
    then have "n = 2 ^ 53" using bounds(1) assms by simp
    moreover have "max (int b - 1 - 52) (- 1074) = 1" using True bpos by simp
    moreover have "roundHalfEven (2 ^ 53 / 2) = 2 ^ 52"
      using roundHalfEven_of_int[of "2 ^ 52"] by simp
    ultimately show ?thesis by (simp add: pow2_def)
  next
    case False
    with b53 have le: "b - 1 \<le> 52" by simp
    define k where "k = 52 - (b - 1)"
    have q: "max (int b - 1 - 52) (- 1074) = - int k" using le bpos by (simp add: k_def)
    have p: "pow2 (- int k) = 1 / 2 ^ k" by (simp add: pow2_def)
    have "of_nat n / (1 / 2 ^ k) = (of_int (int n * 2 ^ k) :: rat)" by simp
    then have "roundHalfEven (of_nat n / (1 / 2 ^ k)) = int n * 2 ^ k"
      by (simp only: roundHalfEven_of_int)
    then have "of_int (roundHalfEven (of_nat n / pow2 (- int k))) * pow2 (- int k)
        = (of_nat n :: rat)"
      unfolding p by simp
    then show ?thesis unfolding q .
  qed
  have lt: "(of_nat n :: rat) < pow2 1024"
  proof -
    have "(of_nat n :: rat) \<le> of_nat (2 ^ 53)" using assms by (simp only: of_nat_le_iff)
    also have "\<dots> < pow2 1024" by (simp add: pow2_def)
    finally show ?thesis .
  qed
  show ?thesis
    using pos v lt by (simp add: roundToDouble_def Let_def fl)
qed

lemma roundToDouble_minus:
  "roundToDouble (- r) =
     (case roundToDouble r of NaN \<Rightarrow> NaN | Fin v \<Rightarrow> Fin (- v) | PosInf \<Rightarrow> NegInf | NegInf \<Rightarrow> PosInf)"
  by (cases "r = 0"; cases "0 < r") (auto simp: roundToDouble_def Let_def)

lemma roundToDouble_int:
  assumes "\<bar>n\<bar> \<le> 2 ^ 53"
  shows "roundToDouble (of_int n) = Fin (of_int n)"
proof (cases "0 \<le> n")
  case True
  then have "nat n \<le> 2 ^ 53" using assms by (simp add: nat_le_iff)
  from roundToDouble_nat[OF this] True show ?thesis by simp
next
  case False
  then have "nat (- n) \<le> 2 ^ 53" using assms by (simp add: nat_le_iff)
  from roundToDouble_nat[OF this] False have "roundToDouble (of_int (- n)) = Fin (of_int (- n))"
    by simp
  then have "roundToDouble (- (- of_int n)) = Fin (- (- of_int n))"
    unfolding roundToDouble_minus[of "- of_int n"] by simp
  then show ?thesis by simp
qed

lemma js_plus_int:
  assumes "\<bar>k + j\<bar> \<le> 2 ^ 53"
  shows "js_plus (Fin (of_int k)) (Fin (of_int j)) = Fin (of_int (k + j))"
  using roundToDouble_int[OF assms] by (simp add: js_plus_def)

text \<open>
  The amounts of the sample records, the doubles of 0.1 and 0.2, and the sums of 0.1,
  0.2 and 0.3 as they are rounded.
\<close>

lemmas double_eval = floorLog2_def bitLength.simps pow2_def roundHalfEven_def Let_def
  floor_rat_numeral ceiling_rat_numeral








section \<open>Calendar arithmetic\<close>

lemma div_bounds:
  fixes n :: int
  assumes "0 < n"
  shows "n * (x div n) \<le> x" and "x - n + 1 \<le> n * (x div n)"
proof -
  have "x = n * (x div n) + x mod n" by simp
  moreover have "0 \<le> x mod n" "x mod n < n" using assms by simp_all
  ultimately show "n * (x div n) \<le> x" and "x - n + 1 \<le> n * (x div n)" by linarith+
qed

lemma DayFromYear_bounds:
  "400 * DayFromYear y \<le> 146097 * y - 287811090 + 589"
  "146097 * y - 287811090 - 506 \<le> 400 * DayFromYear y"
proof -
  define a where "a = (y - 1969) div 4"
  define b where "b = (y - 1901) div 100"
  define c where "c = (y - 1601) div 400"
  have D: "400 * DayFromYear y = 146000 * y - 287620000 + 400 * a - 400 * b + 400 * c"
    by (simp add: DayFromYear_def a_def b_def c_def)
  have A: "4 * a \<le> y - 1969" "y - 1969 - 4 + 1 \<le> 4 * a"
    using div_bounds[of 4 "y - 1969"] by (simp_all add: a_def)
  have B: "100 * b \<le> y - 1901" "y - 1901 - 100 + 1 \<le> 100 * b"
    using div_bounds[of 100 "y - 1901"] by (simp_all add: b_def)
  have C: "400 * c \<le> y - 1601" "y - 1601 - 400 + 1 \<le> 400 * c"
    using div_bounds[of 400 "y - 1601"] by (simp_all add: c_def)
  show "400 * DayFromYear y \<le> 146097 * y - 287811090 + 589"
    unfolding D using A B C by linarith
  show "146097 * y - 287811090 - 506 \<le> 400 * DayFromYear y"
    unfolding D using A B C by linarith
qed

lemma YearFromDay_lower: "DayFromYear (YearFromDay d) \<le> d"
proof -
  define e where "e = (400 * d + 506) div 146097"
  define D where "D = DayFromYear (1970 + e - 1)"
  have "146097 * e \<le> 400 * d + 506"
    using div_bounds(1)[of 146097 "400 * d + 506"] by (simp add: e_def)
  moreover have "400 * D \<le> 146097 * e - 146097 + 589"
    using DayFromYear_bounds(1)[of "1970 + e - 1"] by (simp add: D_def)
  ultimately have "D \<le> d" by linarith
  then show ?thesis unfolding YearFromDay_def Let_def e_def D_def by simp
qed

lemma YearFromDay_upper: "d < DayFromYear (YearFromDay d + 1)"
proof -
  define e where "e = (400 * d + 506) div 146097"
  define D where "D = DayFromYear (1970 + e + 1)"
  have "400 * d + 506 - 146097 + 1 \<le> 146097 * e"
    using div_bounds(2)[of 146097 "400 * d + 506"] by (simp add: e_def)
  moreover have "146097 * e + 146097 - 506 \<le> 400 * D"
    using DayFromYear_bounds(2)[of "1970 + e + 1"] by (simp add: D_def)
  ultimately have *: "d < D" by linarith
  show ?thesis
  proof (cases "DayFromYear (1970 + e) \<le> d")
    case True
    then show ?thesis using * unfolding YearFromDay_def Let_def e_def D_def by (simp add: add.commute)
  next
    case False
    then show ?thesis unfolding YearFromDay_def Let_def e_def by simp
  qed
qed

lemma div_succ:
  fixes n :: int
  assumes n: "0 < n"
  shows "(x + 1) div n = x div n + (if (x + 1) mod n = 0 then 1 else 0)"
proof -
  define q where "q = x div n"
  define r where "r = x mod n"
  have x: "x = n * q + r" and r: "0 \<le> r" "r < n" using n by (simp_all add: q_def r_def)
  show ?thesis
  proof (cases "r + 1 = n")
    case True
    then have e: "x + 1 = n * (q + 1) + 0" using x by (simp add: algebra_simps)
    have "(x + 1) div n = q + 1" using n by (intro int_div_pos_eq[OF e]) simp_all
    moreover have "(x + 1) mod n = 0" using n by (intro int_mod_pos_eq[OF e]) simp_all
    ultimately show ?thesis by (simp add: q_def)
  next
    case False
    then have lt: "r + 1 < n" using r by simp
    have e: "x + 1 = n * q + (r + 1)" using x by simp
    have "(x + 1) div n = q" using r lt by (intro int_div_pos_eq[OF e]) simp_all
    moreover have "(x + 1) mod n = r + 1" using r lt by (intro int_mod_pos_eq[OF e]) simp_all
    ultimately show ?thesis using r by (simp add: q_def)
  qed
qed

lemma mod_shift:
  fixes y :: int
  shows "(y - 1968) mod 4 = y mod 4" "(y - 1900) mod 100 = y mod 100"
    "(y - 1600) mod 400 = y mod 400"
proof -
  have "(y - 1968) mod 4 = (y mod 4 - 1968 mod 4) mod 4" by (rule mod_diff_eq[symmetric])
  then show "(y - 1968) mod 4 = y mod 4" by simp
  have "(y - 1900) mod 100 = (y mod 100 - 1900 mod 100) mod 100" by (rule mod_diff_eq[symmetric])
  then show "(y - 1900) mod 100 = y mod 100" by simp
  have "(y - 1600) mod 400 = (y mod 400 - 1600 mod 400) mod 400" by (rule mod_diff_eq[symmetric])
  then show "(y - 1600) mod 400 = y mod 400" by simp
qed

lemma mod_coarse:
  fixes y :: int
  shows "y mod 100 = 0 \<Longrightarrow> y mod 4 = 0" "y mod 400 = 0 \<Longrightarrow> y mod 100 = 0"
proof -
  have a: "(4::int) dvd 100" and b: "(100::int) dvd 400" by simp_all
  show "y mod 100 = 0 \<Longrightarrow> y mod 4 = 0" using dvd_trans[OF a, of y] by (simp add: dvd_eq_mod_eq_0)
  show "y mod 400 = 0 \<Longrightarrow> y mod 100 = 0" using dvd_trans[OF b, of y] by (simp add: dvd_eq_mod_eq_0)
qed

lemma DayFromYear_Suc: "DayFromYear (y + 1) = DayFromYear y + DaysInYear y"
proof -
  have a: "(y + 1 - 1969) div 4 = (y - 1969) div 4 + (if y mod 4 = 0 then 1 else 0)"
    using div_succ[of 4 "y - 1969"] mod_shift(1)[of y] by (simp add: algebra_simps)
  have b: "(y + 1 - 1901) div 100 = (y - 1901) div 100 + (if y mod 100 = 0 then 1 else 0)"
    using div_succ[of 100 "y - 1901"] mod_shift(2)[of y] by (simp add: algebra_simps)
  have c: "(y + 1 - 1601) div 400 = (y - 1601) div 400 + (if y mod 400 = 0 then 1 else 0)"
    using div_succ[of 400 "y - 1601"] mod_shift(3)[of y] by (simp add: algebra_simps)
  show ?thesis
    unfolding DayFromYear_def DaysInYear_def a b c using mod_coarse[of y] by auto
qed

lemma DaysInYear_cases: "DaysInYear y = 365 \<or> DaysInYear y = 366"
  by (simp add: DaysInYear_def)

lemma DayFromYear_mono: "y \<le> z \<Longrightarrow> DayFromYear y \<le> DayFromYear z"
proof (induction z rule: int_ge_induct)
  case base
  show ?case by simp
next
  case (step i)
  then show ?case using DayFromYear_Suc[of i] DaysInYear_cases[of i] by linarith
qed

lemma YearFromDay_unique:
  assumes "DayFromYear y \<le> d" and "d < DayFromYear (y + 1)"
  shows "YearFromDay d = y"
proof (rule ccontr)
  assume ne: "YearFromDay d \<noteq> y"
  define Y where "Y = YearFromDay d"
  have lo: "DayFromYear Y \<le> d" and up: "d < DayFromYear (Y + 1)"
    unfolding Y_def by (rule YearFromDay_lower, rule YearFromDay_upper)
  show False
  proof (cases "Y < y")
    case True
    then have "DayFromYear (Y + 1) \<le> DayFromYear y" by (intro DayFromYear_mono) simp
    with up assms(1) show False by linarith
  next
    case False
    with ne have "y + 1 \<le> Y" by (simp add: Y_def)
    then have "DayFromYear (y + 1) \<le> DayFromYear Y" by (rule DayFromYear_mono)
    with lo assms(2) show False by linarith
  qed
qed

lemma YearFromTime_largest:
  "TimeFromYear (YearFromTime t) \<le> t"
  "TimeFromYear y \<le> t \<Longrightarrow> y \<le> YearFromTime t"
proof -
  have pos: "0 < msPerDay" by (simp add: msPerDay_def)
  have d: "msPerDay * Day t \<le> t" "t - msPerDay + 1 \<le> msPerDay * Day t"
    unfolding Day_def using div_bounds[OF pos, of t] by simp_all
  have "msPerDay * DayFromYear (YearFromTime t) \<le> msPerDay * Day t"
    unfolding YearFromTime_def using YearFromDay_lower[of "Day t"] pos by simp
  with d(1) show "TimeFromYear (YearFromTime t) \<le> t" by (simp add: TimeFromYear_def)
  show "y \<le> YearFromTime t" if le: "TimeFromYear y \<le> t"
  proof (rule ccontr)
    assume "\<not> y \<le> YearFromTime t"
    then have "YearFromTime t + 1 \<le> y" by simp
    then have "DayFromYear (YearFromTime t + 1) \<le> DayFromYear y" by (rule DayFromYear_mono)
    then have "Day t < DayFromYear y"
      using YearFromDay_upper[of "Day t"] by (simp add: YearFromTime_def)
    then have "Day t + 1 \<le> DayFromYear y" by simp
    then have "msPerDay * (Day t + 1) \<le> msPerDay * DayFromYear y" using pos by simp
    then have "msPerDay * Day t + msPerDay \<le> TimeFromYear y"
      by (simp add: TimeFromYear_def algebra_simps)
    with d(2) le show False by linarith
  qed
qed

lemma Day_MakeDate:
  assumes "0 \<le> tm" "tm < msPerDay"
  shows "Day (D * msPerDay + tm) = D" "TimeWithinDay (D * msPerDay + tm) = tm"
proof -
  have e: "D * msPerDay + tm = msPerDay * D + tm" by simp
  show "Day (D * msPerDay + tm) = D"
    unfolding Day_def using assms by (intro int_div_pos_eq[OF e]) simp_all
  show "TimeWithinDay (D * msPerDay + tm) = tm"
    unfolding TimeWithinDay_def using assms by (intro int_mod_pos_eq[OF e]) simp_all
qed

lemma month_cases:
  fixes m :: int
  assumes "0 \<le> m" "m < 12"
  obtains "m = 0" | "m = 1" | "m = 2" | "m = 3" | "m = 4" | "m = 5"
    | "m = 6" | "m = 7" | "m = 8" | "m = 9" | "m = 10" | "m = 11"
proof -
  have "m = 0 \<or> m = 1 \<or> m = 2 \<or> m = 3 \<or> m = 4 \<or> m = 5
      \<or> m = 6 \<or> m = 7 \<or> m = 8 \<or> m = 9 \<or> m = 10 \<or> m = 11"
    using assms by presburger
  then show thesis using that by blast
qed

lemma DayFromMonth_range:
  assumes "0 \<le> m" "m < 12"
  shows "0 \<le> DayFromMonth m y" "DayFromMonth m y < DaysInYear y"
  using assms(1,2) DaysInYear_cases[of y]
  by (cases m rule: month_cases; auto simp: DayFromMonth_def)+

lemma month_start:
  assumes m: "0 \<le> m" "m < 12" and tm: "0 \<le> tm" "tm < msPerDay"
    and t: "t = (DayFromYear y + DayFromMonth m y) * msPerDay + tm"
  shows "YearFromTime t = y" "MonthFromTime t = m" "DateFromTime t = 1" "TimeWithinDay t = tm"
proof -
  have day: "Day t = DayFromYear y + DayFromMonth m y"
    unfolding t by (rule Day_MakeDate(1)[OF tm])
  show tw: "TimeWithinDay t = tm" unfolding t by (rule Day_MakeDate(2)[OF tm])
  show yr: "YearFromTime t = y"
    unfolding YearFromTime_def day
    using DayFromMonth_range[OF m, of y] DayFromYear_Suc[of y]
    by (intro YearFromDay_unique) simp_all
  have dwy: "DayWithinYear t = DayFromMonth m y"
    by (simp add: DayWithinYear_def day yr)
  have leap: "InLeapYear t = (if DaysInYear y = 365 then 0 else 1)"
    by (simp add: InLeapYear_def yr)
  show mo: "MonthFromTime t = m"
    unfolding MonthFromTime_def dwy leap Let_def
    using m by (cases m rule: month_cases; simp add: DayFromMonth_def)
  show "DateFromTime t = 1"
    unfolding DateFromTime_def mo dwy leap Let_def
    using m by (cases m rule: month_cases; simp add: DayFromMonth_def)
qed

section \<open>The Date operations of the month-range helper\<close>

lemma trunc_of_int [simp]: "trunc (of_int k) = k"
  by (simp add: trunc_def)

lemma trunc_simps [simp]: "trunc 1 = 1" "trunc 0 = 0" "trunc (of_int k + 1) = k + 1"
  "trunc (of_int k - 1) = k - 1" "trunc (of_nat n) = int n"
proof -
  show "trunc 1 = 1" "trunc 0 = 0" by (simp_all add: trunc_def)
  have "trunc (of_int (k + 1)) = k + 1" by (rule trunc_of_int)
  then show "trunc (of_int k + 1) = k + 1" by simp
  have "trunc (of_int (k - 1)) = k - 1" by (rule trunc_of_int)
  then show "trunc (of_int k - 1) = k - 1" by simp
  have "trunc (of_int (int n)) = int n" by (rule trunc_of_int)
  then show "trunc (of_nat n) = int n" by simp
qed

lemma MakeDate_first:
  "MakeDate (MakeDay (Fin yf) (Fin mf) (Fin 1)) (Some 0) =
     Some (firstOfMonth (trunc yf + trunc mf div 12) (trunc mf mod 12))"
  by (simp add: MakeDay_def MakeDate_def Let_def firstOfMonth_def)

lemma firstOfMonth_parts:
  assumes m: "0 \<le> m" "m < 12"
  shows "YearFromTime (firstOfMonth y m) = y" "MonthFromTime (firstOfMonth y m) = m"
    "DateFromTime (firstOfMonth y m) = 1" "TimeWithinDay (firstOfMonth y m) = 0"
proof -
  have z: "(0::int) \<le> 0" "0 < msPerDay" by (simp_all add: msPerDay_def)
  have t: "firstOfMonth y m = (DayFromYear y + DayFromMonth m y) * msPerDay + 0"
    by (simp add: firstOfMonth_def)
  show "YearFromTime (firstOfMonth y m) = y" "MonthFromTime (firstOfMonth y m) = m"
    "DateFromTime (firstOfMonth y m) = 1" "TimeWithinDay (firstOfMonth y m) = 0"
    by (rule month_start[OF m z t])+
qed

lemma localParts_firstOfMonth:
  assumes m: "0 \<le> m" "m < 12" and rep: "representable h (firstOfMonth y m)"
  shows "localParts h (Some (UTC h (firstOfMonth y m))) = Some (y, m, 1, 0)"
proof -
  have l: "LocalTime h (UTC h (firstOfMonth y m)) = firstOfMonth y m"
    using rep by (simp add: representable_def)
  show ?thesis
    by (simp add: localParts_def Let_def l firstOfMonth_parts[OF m])
qed

lemma TimeClip_representable:
  "representable h t \<Longrightarrow> TimeClip (Some (UTC h t)) = Some (UTC h t)"
  by (simp add: TimeClip_def representable_def)

lemma new_Date_ymd_first:
  assumes y: "trunc yf < 0 \<or> 99 < trunc yf"
    and rep: "representable h (firstOfMonth (trunc yf + trunc mf div 12) (trunc mf mod 12))"
  shows "new_Date_ymd h (Fin yf) (Fin mf) (Fin 1) =
           Some (UTC h (firstOfMonth (trunc yf + trunc mf div 12) (trunc mf mod 12)))"
proof -
  have yr: "(if 0 \<le> trunc yf \<and> trunc yf \<le> 99 then Fin (1900 + of_int (trunc yf)) else Fin yf) = Fin yf"
    using y by auto
  show ?thesis
    unfolding new_Date_ymd_def Let_def jsnum.case yr MakeTime_def
    by (simp add: MakeDate_first TimeClip_representable[OF rep])
qed

lemma setMonth_next:
  assumes m: "0 \<le> m" "m < 12"
    and rep: "representable h (firstOfMonth y m)"
    and rep': "representable h (firstOfMonth (y + (m + 1) div 12) ((m + 1) mod 12))"
  shows "setMonth h (Some (UTC h (firstOfMonth y m)))
           (js_add (getMonth h (Some (UTC h (firstOfMonth y m)))) 1) =
         Some (UTC h (firstOfMonth (y + (m + 1) div 12) ((m + 1) mod 12)))"
proof -
  have l: "LocalTime h (UTC h (firstOfMonth y m)) = firstOfMonth y m"
    using rep by (simp add: representable_def)
  note ms = firstOfMonth_parts[OF m, of y]
  have "\<bar>m + 1\<bar> \<le> 2 ^ 53" using m by simp
  from js_plus_int[OF this]
  have gm: "js_add (getMonth h (Some (UTC h (firstOfMonth y m)))) 1 = Fin (of_int m + 1)"
    by (simp add: getMonth_def l ms js_add_def)
  have md: "MakeDate (MakeDay (Fin (of_int y)) (Fin (of_int m + 1)) (Fin 1)) (Some 0) =
      Some (firstOfMonth (y + (m + 1) div 12) ((m + 1) mod 12))"
    by (simp add: MakeDate_first)
  show ?thesis
    unfolding gm setMonth_def option.case Let_def l ms
    using md by (simp add: TimeClip_representable[OF rep'])
qed

section \<open>Reading a month string\<close>

lemma digitOfRadix_10: "digitOfRadix 10 c = Some d \<Longrightarrow> isDigit c"
  by (auto simp: digitOfRadix_def isDigit_def Let_def split: if_splits option.splits)

lemma digitsValue_10_digits: "digitsValue 10 acc s = Some n \<Longrightarrow> list_all isDigit s"
  by (induction s arbitrary: acc) (auto split: option.splits dest: digitOfRadix_10)

lemma isDigit_not_special:
  assumes "isDigit c"
  shows "\<not> isStrWhiteSpaceChar c" "c \<noteq> CHR ''-''" "c \<noteq> CHR ''+''" "c \<noteq> CHR ''.''"
    "c \<noteq> CHR ''I''" "c \<noteq> CHR ''x''" "c \<noteq> CHR ''X''" "c \<noteq> CHR ''o''" "c \<noteq> CHR ''O''"
    "c \<noteq> CHR ''b''" "c \<noteq> CHR ''B''"
  using assms by (auto simp: isDigit_def isStrWhiteSpaceChar_def)

lemma takeWhile_all: "list_all P s \<Longrightarrow> takeWhile P s = s"
  by (induction s) auto

lemma dropWhile_all: "list_all P s \<Longrightarrow> dropWhile P s = []"
  by (induction s) auto

lemma dropWhile_hd: "xs \<noteq> [] \<Longrightarrow> \<not> P (hd xs) \<Longrightarrow> dropWhile P xs = xs"
  by (cases xs) auto

lemma trimString_digits:
  assumes "list_all isDigit s"
  shows "trimString s = s"
proof (cases s)
  case Nil
  then show ?thesis by (simp add: trimString_def)
next
  case (Cons c cs)
  have h: "\<not> isStrWhiteSpaceChar (hd s)" using assms Cons by (simp add: isDigit_not_special(1))
  have ne: "s \<noteq> []" using Cons by simp
  have l: "\<not> isStrWhiteSpaceChar (last s)"
    using assms ne by (intro isDigit_not_special(1)) (simp add: list_all_iff)
  have a: "dropWhile isStrWhiteSpaceChar s = s" using h Cons by simp
  have "hd (rev s) = last s" using ne by (simp add: hd_rev)
  then have b: "dropWhile isStrWhiteSpaceChar (rev s) = rev s"
    using l ne by (intro dropWhile_hd) simp_all
  show ?thesis by (simp add: trimString_def a b)
qed

lemma NonDecimal_digits:
  assumes "list_all isDigit s"
  shows "NonDecimalIntegerLiteral s = None"
proof (cases s)
  case Nil
  then show ?thesis by (simp add: NonDecimalIntegerLiteral_def)
next
  case (Cons c0 r)
  show ?thesis
  proof (cases r)
    case Nil
    with Cons show ?thesis by (simp add: NonDecimalIntegerLiteral_def)
  next
    case (Cons c1 ds)
    have "isDigit c1" using assms \<open>s = c0 # r\<close> Cons by simp
    from isDigit_not_special[OF this] show ?thesis
      using \<open>s = c0 # r\<close> Cons by (simp add: NonDecimalIntegerLiteral_def)
  qed
qed

lemma StringToNumber_digits:
  assumes "numeral_of 10 s = Some n" and n: "n \<le> 2 ^ 53"
  shows "StringToNumber s = Fin (of_nat n)"
proof -
  from assms(1) have ne: "s \<noteq> []" and dv: "digitsValue 10 0 s = Some n"
    by (auto simp: numeral_of_def split: if_splits)
  have dig: "list_all isDigit s" by (rule digitsValue_10_digits[OF dv])
  obtain c cs where s: "s = c # cs" using ne by (cases s) auto
  have c: "isDigit c" using dig s by simp
  have inf: "s \<noteq> ''Infinity''" using isDigit_not_special(5)[OF c] s by auto
  have u: "StrUnsignedDecimalLiteral s = Fin (of_nat n)"
    unfolding StrUnsignedDecimalLiteral_def
    using inf ne dv
    by (simp add: takeWhile_all[OF dig] dropWhile_all[OF dig] scale10_def roundToDouble_nat[OF n])
  have d: "StrDecimalLiteral s = Fin (of_nat n)"
    using isDigit_not_special(2,3)[OF c] u by (simp add: StrDecimalLiteral_def s)
  show ?thesis
    unfolding StringToNumber_def
    using ne d by (simp add: trimString_digits[OF dig] NonDecimal_digits[OF dig])
qed

lemma split_on_none: "c \<notin> set s \<Longrightarrow> split_on c s = [s]"
  by (induction s) auto

lemma split_on_first: "c \<notin> set a \<Longrightarrow> split_on c (a @ c # b) = a # split_on c b"
  by (induction a) auto

lemma digits_no_dash: "list_all isDigit s \<Longrightarrow> CHR ''-'' \<notin> set s"
  using isDigit_not_special(2) by (auto simp: list_all_iff)

lemma split_month_string:
  assumes "numeral_of 10 ys = Some y" "numeral_of 10 ms = Some m"
    and "y \<le> 2 ^ 53" "m \<le> 2 ^ 53"
  shows "map StringToNumber (split_on CHR ''-'' (ys @ CHR ''-'' # ms)) = [Fin (of_nat y), Fin (of_nat m)]"
proof -
  have a: "list_all isDigit ys" "list_all isDigit ms"
    using assms(1,2) by (auto simp: numeral_of_def split: if_splits intro: digitsValue_10_digits)
  show ?thesis
    by (simp add: split_on_first[OF digits_no_dash[OF a(1)]] split_on_none[OF digits_no_dash[OF a(2)]]
        StringToNumber_digits[OF assms(1,3)] StringToNumber_digits[OF assms(2,4)])
qed

lemma nextMonth_divmod:
  assumes "0 \<le> m" "m < 12"
  shows "(y + (m + 1) div 12, (m + 1) mod 12) = nextMonth (y, m)"
  using assms by (cases m rule: month_cases) (simp_all add: nextMonth_def)

lemma getMonthRange_parsed:
  assumes ys: "numeral_of 10 ys = Some y" and ms: "numeral_of 10 ms = Some m"
    and y: "100 \<le> y" and yb: "y \<le> 2 ^ 53" and mb: "m \<le> 2 ^ 53"
    and y': "y' = int y + (int m - 1) div 12" and m': "m' = (int m - 1) mod 12"
    and nx: "(y'', m'') = nextMonth (y', m')"
    and rep: "representable h (firstOfMonth y' m')"
    and rep': "representable h (firstOfMonth y'' m'')"
  shows "getMonthRange h now (Some (ys @ CHR ''-'' # ms)) =
           (Some (UTC h (firstOfMonth y' m')), Some (UTC h (firstOfMonth y'' m'')))"
proof -
  have mr: "0 \<le> m'" "m' < 12" by (simp_all add: m')
  have "(y'', m'') = (y' + (m' + 1) div 12, (m' + 1) mod 12)"
    using nextMonth_divmod[OF mr, of y'] nx by simp
  then have nx': "y'' = y' + (m' + 1) div 12" "m'' = (m' + 1) mod 12"
    by simp_all
  have tr: "trunc (of_nat y) = int y" "trunc (of_nat m - 1) = int m - 1"
    using trunc_simps(4)[of "int m"] by simp_all
  have "\<bar>int m + - 1\<bar> \<le> 2 ^ 53" using mb by simp
  from js_plus_int[OF this]
  have ja: "js_add (Fin (of_nat m)) (- 1) = Fin (of_nat m - 1)"
    by (simp add: js_add_def)
  have start: "new_Date_ymd h (Fin (of_nat y)) (Fin (of_nat m - 1)) (Fin 1) =
      Some (UTC h (firstOfMonth y' m'))"
    using new_Date_ymd_first[of "of_nat y" h "of_nat m - 1"] y rep
    unfolding tr y' m' by simp
  have en: "setMonth h (Some (UTC h (firstOfMonth y' m')))
           (js_add (getMonth h (Some (UTC h (firstOfMonth y' m')))) 1) =
         Some (UTC h (firstOfMonth y'' m''))"
    unfolding nx' using rep' by (intro setMonth_next[OF mr rep]) (simp add: nx')
  show ?thesis
    unfolding getMonthRange_def Let_def
    by (simp add: split_month_string[OF ys ms yb mb] ToNumber_def ja start en)
qed

lemma new_Date_ymd_two_digit:
  assumes y: "0 \<le> trunc yf" "trunc yf \<le> 99"
    and rep: "representable h (firstOfMonth (1900 + trunc yf + trunc mf div 12) (trunc mf mod 12))"
  shows "new_Date_ymd h (Fin yf) (Fin mf) (Fin 1) =
           Some (UTC h (firstOfMonth (1900 + trunc yf + trunc mf div 12) (trunc mf mod 12)))"
proof -
  have yr: "(if 0 \<le> trunc yf \<and> trunc yf \<le> 99 then Fin (1900 + of_int (trunc yf)) else Fin yf)
      = Fin (1900 + of_int (trunc yf))"
    using y by simp
  have tr: "trunc (1900 + rat_of_int (trunc yf)) = 1900 + trunc yf"
    using trunc_of_int[of "1900 + trunc yf"] by simp
  show ?thesis
    unfolding new_Date_ymd_def Let_def jsnum.case yr MakeTime_def
    by (simp add: MakeDate_first tr TimeClip_representable[OF rep])
qed

lemma getMonthRange_start_two_digit:
  assumes ys: "numeral_of 10 ys = Some y" and ms: "numeral_of 10 ms = Some m"
    and y: "y \<le> 99" and mb: "m \<le> 2 ^ 53"
    and rep: "representable h (firstOfMonth (1900 + int y + (int m - 1) div 12) ((int m - 1) mod 12))"
  shows "fst (getMonthRange h now (Some (ys @ CHR ''-'' # ms))) =
           Some (UTC h (firstOfMonth (1900 + int y + (int m - 1) div 12) ((int m - 1) mod 12)))"
proof -
  have tr: "trunc (of_nat y) = int y" "trunc (of_nat m - 1) = int m - 1"
    using trunc_simps(4)[of "int m"] by simp_all
  have "\<bar>int m + - 1\<bar> \<le> 2 ^ 53" using mb by simp
  from js_plus_int[OF this]
  have ja: "js_add (Fin (of_nat m)) (- 1) = Fin (of_nat m - 1)"
    by (simp add: js_add_def)
  have yb: "y \<le> 2 ^ 53" using y by simp
  have start: "new_Date_ymd h (Fin (of_nat y)) (Fin (of_nat m - 1)) (Fin 1) =
      Some (UTC h (firstOfMonth (1900 + int y + (int m - 1) div 12) ((int m - 1) mod 12)))"
    using new_Date_ymd_two_digit[of "of_nat y" h "of_nat m - 1"] y rep
    unfolding tr by simp
  show ?thesis
    unfolding getMonthRange_def Let_def
    by (simp add: split_month_string[OF ys ms yb mb] ToNumber_def ja start)
qed

lemma getMonthRange_calendar:
  assumes "numeral_of 10 ys = Some y" and "numeral_of 10 ms = Some m"
    and "100 \<le> y" and "y \<le> 2 ^ 53" and "m \<le> 2 ^ 53"
    and "y' = int y + (int m - 1) div 12" and "m' = (int m - 1) mod 12"
    and "representable h (firstOfMonth y' m')"
    and "representable h (firstOfMonth (fst (nextMonth (y', m'))) (snd (nextMonth (y', m'))))"
  shows "localParts h (fst (getMonthRange h now (Some (ys @ ''-'' @ ms)))) = Some (y', m', 1, 0)"
    and "localParts h (snd (getMonthRange h now (Some (ys @ ''-'' @ ms))))
           = Some (fst (nextMonth (y', m')), snd (nextMonth (y', m')), 1, 0)"
proof -
  obtain y'' m'' where nx: "(y'', m'') = nextMonth (y', m')" by (metis surj_pair)
  have n: "fst (nextMonth (y', m')) = y''" "snd (nextMonth (y', m')) = m''"
    using nx by (metis fst_conv, metis snd_conv)
  have mr: "0 \<le> m'" "m' < 12" using assms(7) by simp_all
  have mr': "0 \<le> m''" "m'' < 12"
    using nx mr by (auto simp: nextMonth_def split: if_splits)
  have rep': "representable h (firstOfMonth y'' m'')" using assms(9) by (simp add: n)
  have r: "getMonthRange h now (Some (ys @ CHR ''-'' # ms)) =
           (Some (UTC h (firstOfMonth y' m')), Some (UTC h (firstOfMonth y'' m'')))"
    by (rule getMonthRange_parsed[OF assms(1-7) nx assms(8) rep'])
  show "localParts h (fst (getMonthRange h now (Some (ys @ ''-'' @ ms)))) = Some (y', m', 1, 0)"
    by (simp add: r localParts_firstOfMonth[OF mr assms(8)])
  show "localParts h (snd (getMonthRange h now (Some (ys @ ''-'' @ ms))))
           = Some (fst (nextMonth (y', m')), snd (nextMonth (y', m')), 1, 0)"
    by (simp add: r n localParts_firstOfMonth[OF mr' rep'])
qed

lemma getMonthRange_valid_month:
  assumes "numeral_of 10 ys = Some y" and "numeral_of 10 ms = Some m"
    and "100 \<le> y" and "y \<le> 2 ^ 53" and "1 \<le> m" and "m \<le> 12"
    and "representable h (firstOfMonth (int y) (int m - 1))"
    and "representable h (firstOfMonth (fst (nextMonth (int y, int m - 1)))
                                       (snd (nextMonth (int y, int m - 1))))"
  shows "localParts h (fst (getMonthRange h now (Some (ys @ ''-'' @ ms))))
           = Some (int y, int m - 1, 1, 0)"
    and "localParts h (snd (getMonthRange h now (Some (ys @ ''-'' @ ms))))
           = Some (fst (nextMonth (int y, int m - 1)), snd (nextMonth (int y, int m - 1)), 1, 0)"
proof -
  have d: "int y = int y + (int m - 1) div 12" "int m - 1 = (int m - 1) mod 12"
    using assms(5,6) by simp_all
  have mb: "m \<le> 2 ^ 53" using assms(6) by simp
  show "localParts h (fst (getMonthRange h now (Some (ys @ ''-'' @ ms))))
           = Some (int y, int m - 1, 1, 0)"
    by (rule getMonthRange_calendar(1)[OF assms(1-4) mb d assms(7,8)])
  show "localParts h (snd (getMonthRange h now (Some (ys @ ''-'' @ ms))))
           = Some (fst (nextMonth (int y, int m - 1)), snd (nextMonth (int y, int m - 1)), 1, 0)"
    by (rule getMonthRange_calendar(2)[OF assms(1-4) mb d assms(7,8)])
qed

lemma fixed_offset_representable:
  "representable (fixed_offset_host off) t \<longleftrightarrow> \<bar>t - off\<bar> \<le> maxTime"
  by (simp add: representable_def fixed_offset_host_def UTC_def LocalTime_def)

lemmas calendar_eval =
  firstOfMonth_def DayFromYear_def DayFromMonth_def DaysInYear_def msPerDay_def maxTime_def

section \<open>The month range of a month string\<close>

text \<open>
  In a month string of digits, a year above 99 and any month number give the calendar
  month reached by counting months from January of that year, whenever both ends are
  representable: the start shows day 1 at local midnight of that month, the end the same
  of the month after. The example of the specification, \<open>2024-02\<close>, in a zone one hour
  east of Greenwich: start 2024-02-01T00:00 and end 2024-03-01T00:00, local time.
\<close>

lemma getMonthRange_2024_02:
  "localParts (fixed_offset_host 3600000)
     (fst (getMonthRange (fixed_offset_host 3600000) now (Some ''2024-02''))) = Some (2024, 1, 1, 0)"
  "localParts (fixed_offset_host 3600000)
     (snd (getMonthRange (fixed_offset_host 3600000) now (Some ''2024-02''))) = Some (2024, 2, 1, 0)"
  "getMonthRange (fixed_offset_host 3600000) now (Some ''2024-02'')
     = (Some 1706742000000, Some 1709247600000)"
proof -
  have a: "numeral_of 10 ''2024'' = Some 2024" "numeral_of 10 ''02'' = Some 2"
    by (simp_all add: numeral_of_def digitOfRadix_def)
  have n: "nextMonth (2024, 1) = (2024, 2)" by (simp add: nextMonth_def)
  have r: "representable (fixed_offset_host 3600000) (firstOfMonth 2024 1)"
    "representable (fixed_offset_host 3600000) (firstOfMonth 2024 2)"
    by (simp_all add: fixed_offset_representable calendar_eval)
  have b: "(2024::nat) \<le> 2 ^ 53" "(2::nat) \<le> 2 ^ 53" by simp_all
  note c = getMonthRange_calendar[of "''2024''" 2024 "''02''" 2 2024 1 "fixed_offset_host 3600000" now]
  show "localParts (fixed_offset_host 3600000)
     (fst (getMonthRange (fixed_offset_host 3600000) now (Some ''2024-02''))) = Some (2024, 1, 1, 0)"
    using c(1) a b r by (simp add: n)
  show "localParts (fixed_offset_host 3600000)
     (snd (getMonthRange (fixed_offset_host 3600000) now (Some ''2024-02''))) = Some (2024, 2, 1, 0)"
    using c(2) a b r by (simp add: n)
  show "getMonthRange (fixed_offset_host 3600000) now (Some ''2024-02'')
     = (Some 1706742000000, Some 1709247600000)"
    using getMonthRange_parsed[of "''2024''" 2024 "''02''" 2 2024 1 2024 2 "fixed_offset_host 3600000" now]
      a b r
    by (simp add: n calendar_eval UTC_def fixed_offset_host_def)
qed

text \<open>The month string \<open>2024-13\<close> gives the range of \<open>2025-01\<close>.\<close>

lemma getMonthRange_2024_13:
  "getMonthRange (fixed_offset_host 3600000) now (Some ''2024-13'')
     = getMonthRange (fixed_offset_host 3600000) now (Some ''2025-01'')"
proof -
  have a: "numeral_of 10 ''2024'' = Some 2024" "numeral_of 10 ''13'' = Some 13"
    "numeral_of 10 ''2025'' = Some 2025" "numeral_of 10 ''01'' = Some 1"
    by (simp_all add: numeral_of_def digitOfRadix_def)
  have n: "(2025, 1) = nextMonth (2025, 0)" by (simp add: nextMonth_def)
  have r: "representable (fixed_offset_host 3600000) (firstOfMonth 2025 0)"
    "representable (fixed_offset_host 3600000) (firstOfMonth 2025 1)"
    by (simp_all add: fixed_offset_representable calendar_eval)
  have "getMonthRange (fixed_offset_host 3600000) now (Some (''2024'' @ CHR ''-'' # ''13''))
      = (Some (UTC (fixed_offset_host 3600000) (firstOfMonth 2025 0)),
         Some (UTC (fixed_offset_host 3600000) (firstOfMonth 2025 1)))"
    by (rule getMonthRange_parsed[OF a(1,2) _ _ _ _ _ n r]) simp_all
  moreover have "getMonthRange (fixed_offset_host 3600000) now (Some (''2025'' @ CHR ''-'' # ''01''))
      = (Some (UTC (fixed_offset_host 3600000) (firstOfMonth 2025 0)),
         Some (UTC (fixed_offset_host 3600000) (firstOfMonth 2025 1)))"
    by (rule getMonthRange_parsed[OF a(3,4) _ _ _ _ _ n r]) simp_all
  ultimately show ?thesis by simp
qed

text \<open>
  A month number is read as the nearest double: \<open>1.9999999999999999999\<close> is 2, and the
  month string \<open>2024-1.9999999999999999999\<close> gives the range of \<open>2024-02\<close>.
\<close>

lemma double_two: "roundToDouble (19999999999999999999 / 10000000000000000000) = Fin 2"
  by (rule roundToDouble_pos[where e = 0 and q = "- 52" and n = 9007199254740992])
    (simp_all add: double_eval)

lemma StringToNumber_rounds: "StringToNumber ''1.9999999999999999999'' = Fin 2"
  by (simp add: StringToNumber_def trimString_def isStrWhiteSpaceChar_def
      NonDecimalIntegerLiteral_def StrDecimalLiteral_def StrUnsignedDecimalLiteral_def
      isDigit_def digitOfRadix_def scale10_def Let_def double_two)

lemma getMonthRange_rounded_month:
  "getMonthRange h now (Some ''2024-1.9999999999999999999'') = getMonthRange h now (Some ''2024-02'')"
proof -
  have a: "numeral_of 10 ''02'' = Some 2"
    by (simp add: numeral_of_def digitOfRadix_def)
  have m: "StringToNumber ''02'' = Fin 2"
    using StringToNumber_digits[OF a] by simp
  show ?thesis
    by (simp add: getMonthRange_def m StringToNumber_rounds)
qed

text \<open>
  C1. For every valid month string \<open>YYYY-MM\<close> the start is the first instant of day 1 of
  that calendar month, local time, and the end is one calendar month later. The helper
  does this for the years 0100 to 9999 (\<open>getMonthRange_valid_month\<close>), but not for the years
  0000 to 0099: \<open>new Date(year, month - 1, 1)\<close> reads a year from 0 to 99 as 1900 + year,
  so the start of \<open>00YY-MM\<close> is the first instant of that month of the year 19YY.
\<close>

theorem getMonthRange_two_digit_year:
  assumes "numeral_of 10 ys = Some y" and "numeral_of 10 ms = Some m"
    and "y \<le> 99" and "1 \<le> m" and "m \<le> 12"
    and "representable h (firstOfMonth (1900 + int y) (int m - 1))"
  shows "localParts h (fst (getMonthRange h now (Some (ys @ ''-'' @ ms))))
           = Some (1900 + int y, int m - 1, 1, 0)"
proof -
  have d: "(int m - 1) div 12 = 0" "(int m - 1) mod 12 = int m - 1"
    using assms(4,5) by simp_all
  have mr: "0 \<le> int m - 1" "int m - 1 < 12" using assms(4,5) by simp_all
  have "fst (getMonthRange h now (Some (ys @ CHR ''-'' # ms))) =
           Some (UTC h (firstOfMonth (1900 + int y) (int m - 1)))"
    using getMonthRange_start_two_digit[OF assms(1,2,3), of h now] assms(5,6) by (simp add: d)
  then show ?thesis
    by (simp add: localParts_firstOfMonth[OF mr assms(6)])
qed

theorem getMonthRange_two_digit_year_witness:
  "numeral_of 10 ''0050'' = Some 50 \<and> numeral_of 10 ''03'' = Some 3
   \<and> representable (fixed_offset_host 0) (firstOfMonth 1950 2)
   \<and> localParts (fixed_offset_host 0)
        (fst (getMonthRange (fixed_offset_host 0) 0 (Some ''0050-03''))) = Some (1950, 2, 1, 0)"
proof -
  have a: "numeral_of 10 ''0050'' = Some 50" "numeral_of 10 ''03'' = Some 3"
    by (simp_all add: numeral_of_def digitOfRadix_def)
  have r: "representable (fixed_offset_host 0) (firstOfMonth 1950 2)"
    by (simp add: fixed_offset_representable calendar_eval)
  show ?thesis
    using getMonthRange_two_digit_year[of "''0050''" 50 "''03''" 3 "fixed_offset_host 0" 0] a r
    by simp
qed

text \<open>
  C10, as stated: every month number outside 1 to 12 is normalised, and the start still
  shows day 1. It fails for \<open>2024-99999999999\<close>, whose month number takes the start out
  of the range of a Date: both ends are Invalid Dates, and the day of the month of the
  start is \<open>NaN\<close>.
\<close>

theorem getMonthRange_huge_month:
  "getMonthRange (fixed_offset_host 0) 0 (Some ''2024-99999999999'') = (None, None)
   \<and> getDate (fixed_offset_host 0)
        (fst (getMonthRange (fixed_offset_host 0) 0 (Some ''2024-99999999999''))) = NaN"
proof -
  have a: "numeral_of 10 ''2024'' = Some 2024" "numeral_of 10 ''99999999999'' = Some 99999999999"
    by (simp_all add: numeral_of_def digitOfRadix_def)
  have s: "map StringToNumber (split_on CHR ''-'' (''2024'' @ CHR ''-'' # ''99999999999''))
      = [Fin 2024, Fin 99999999999]"
    using split_month_string[OF a] by simp
  have ja: "js_add (Fin 99999999999) (- 1) = Fin 99999999998"
    using js_plus_int[of 99999999999 "- 1"] by (simp add: js_add_def)
  have st: "new_Date_ymd (fixed_offset_host 0) (Fin 2024) (Fin 99999999998) (Fin 1) = None"
    by (simp add: new_Date_ymd_def MakeDay_def MakeDate_def MakeTime_def TimeClip_def Let_def
        trunc_def DayFromYear_def DayFromMonth_def DaysInYear_def msPerDay_def maxTime_def
        UTC_def fixed_offset_host_def)
  have g: "getMonthRange (fixed_offset_host 0) 0 (Some ''2024-99999999999'') = (None, None)"
    using s unfolding getMonthRange_def Let_def
    by (simp add: ToNumber_def ja st setMonth_def)
  show ?thesis by (simp add: g getDate_def)
qed

text \<open>
  C10, amended. For a month string of digits with a year \<open>y\<close> of at least 100 and any
  month number \<open>m\<close> (0, or 13 and more, included), both at most \<open>2^53\<close>, the helper
  returns the range of the calendar month \<open>((m - 1) mod 12) + 1\<close> of the year
  \<open>y + floor((m - 1) / 12)\<close>, provided the first instants of that month and of the next
  are representable: the start shows that year and month, day 1, local midnight; the
  end shows the same of the next calendar month. (Months are counted from 0 in
  \<open>localParts\<close>, as \<open>getMonth\<close> does.)
\<close>

theorem getMonthRange_normalizes:
  assumes "numeral_of 10 ys = Some y" and "numeral_of 10 ms = Some m"
    and "100 \<le> y" and "y \<le> 2 ^ 53" and "m \<le> 2 ^ 53"
    and "y' = int y + (int m - 1) div 12" and "m' = (int m - 1) mod 12"
    and "representable h (firstOfMonth y' m')"
    and "representable h (firstOfMonth (fst (nextMonth (y', m'))) (snd (nextMonth (y', m'))))"
  shows "localParts h (fst (getMonthRange h now (Some (ys @ ''-'' @ ms)))) = Some (y', m', 1, 0)
       \<and> localParts h (snd (getMonthRange h now (Some (ys @ ''-'' @ ms))))
           = Some (fst (nextMonth (y', m')), snd (nextMonth (y', m')), 1, 0)"
  using getMonthRange_calendar[OF assms] by simp

theorem getMonthRange_normalizes_witness:
  "numeral_of 10 ''2024'' = Some 2024 \<and> numeral_of 10 ''13'' = Some 13 \<and> (100::nat) \<le> 2024
   \<and> (2024::nat) \<le> 2 ^ 53 \<and> (13::nat) \<le> 2 ^ 53
   \<and> representable (fixed_offset_host 3600000) (firstOfMonth 2025 0)
   \<and> representable (fixed_offset_host 3600000) (firstOfMonth 2025 1)
   \<and> localParts (fixed_offset_host 3600000)
        (fst (getMonthRange (fixed_offset_host 3600000) 0 (Some ''2024-13''))) = Some (2025, 0, 1, 0)
   \<and> localParts (fixed_offset_host 3600000)
        (snd (getMonthRange (fixed_offset_host 3600000) 0 (Some ''2024-13''))) = Some (2025, 1, 1, 0)
   \<and> getMonthRange (fixed_offset_host 3600000) 0 (Some ''2024-13'')
     = getMonthRange (fixed_offset_host 3600000) 0 (Some ''2025-01'')"
proof -
  have a: "numeral_of 10 ''2024'' = Some 2024" "numeral_of 10 ''13'' = Some 13"
    by (simp_all add: numeral_of_def digitOfRadix_def)
  have n: "nextMonth (2025, 0) = (2025, 1)" by (simp add: nextMonth_def)
  have r: "representable (fixed_offset_host 3600000) (firstOfMonth 2025 0)"
    "representable (fixed_offset_host 3600000) (firstOfMonth 2025 1)"
    by (simp_all add: fixed_offset_representable calendar_eval)
  show ?thesis
    using getMonthRange_normalizes[of "''2024''" 2024 "''13''" 13 2025 0 "fixed_offset_host 3600000" 0]
      a r getMonthRange_2024_13[of 0] by (simp add: n)
qed

text \<open>
  At the edge of the range one end alone can be invalid: September 275760 starts
  within the range of a Date, and October 275760 does not.
\<close>

lemma getMonthRange_last_month:
  "getMonthRange (fixed_offset_host 0) now (Some ''275760-09'') = (Some 8639998963200000, None)"
proof -
  have a: "numeral_of 10 ''275760'' = Some 275760" "numeral_of 10 ''09'' = Some 9"
    by (simp_all add: numeral_of_def digitOfRadix_def)
  have s: "map StringToNumber (split_on CHR ''-'' (''275760'' @ CHR ''-'' # ''09''))
      = [Fin 275760, Fin 9]"
    using split_month_string[OF a] by simp
  have ja: "js_add (Fin 9) (- 1) = Fin 8"
    using js_plus_int[of 9 "- 1"] by (simp add: js_add_def)
  have r: "representable (fixed_offset_host 0) (firstOfMonth 275760 8)"
    by (simp add: fixed_offset_representable calendar_eval)
  have f: "firstOfMonth 275760 8 = 8639998963200000" by (simp add: calendar_eval)
  have u: "UTC (fixed_offset_host 0) t = t" "LocalTime (fixed_offset_host 0) t = t" for t
    by (simp_all add: UTC_def LocalTime_def fixed_offset_host_def)
  have tr: "trunc 275760 = 275760" "trunc 8 = 8" "trunc 9 = 9"
    using trunc_of_int[of 275760] trunc_of_int[of 8] trunc_of_int[of 9] by simp_all
  have st: "new_Date_ymd (fixed_offset_host 0) (Fin 275760) (Fin 8) (Fin 1) = Some 8639998963200000"
    using new_Date_ymd_first[of 275760 "fixed_offset_host 0" 8] r by (simp add: u f tr)
  have p: "YearFromTime 8639998963200000 = 275760" "MonthFromTime 8639998963200000 = 8"
    "DateFromTime 8639998963200000 = 1" "TimeWithinDay 8639998963200000 = 0"
    using firstOfMonth_parts[of 8 275760] by (simp_all add: f)
  have gm: "js_add (getMonth (fixed_offset_host 0) (Some 8639998963200000)) 1 = Fin 9"
    using js_plus_int[of 8 1] by (simp add: getMonth_def u p js_add_def)
  have en: "setMonth (fixed_offset_host 0) (Some 8639998963200000) (Fin 9) = None"
    using MakeDate_first[of 275760 9]
    by (simp add: setMonth_def Let_def u p tr TimeClip_def calendar_eval)
  show ?thesis
    using s unfolding getMonthRange_def Let_def
    by (simp add: ToNumber_def ja st gm en)
qed

lemmas sample_eval = sample_db_def sample_doc_def

lemma getMonthRange_2024_02_range:
  "getMonthRange (fixed_offset_host 3600000) now (Some ''2024-02'')
     = (Some 1706742000000, Some 1709247600000)"
  by (rule getMonthRange_2024_02(3))

lemma sample_ids:
  "ObjectId_cast (fixed_offset_host 0) ''000000000000000000000001'' = Some 1"
  "ObjectId_cast (fixed_offset_host 0) ''0000000000000000000000ff'' = Some 255"
  by (simp_all add: fixed_offset_host_def numeral_of_def digitOfRadix_def)

section \<open>Record creation\<close>

lemma post_spends_rejected:
  assumes "\<not> truthy (body_name b) \<or> \<not> truthy (body_sector b) \<or> eq_null (body_amount b)"
  shows "post_spends h now oid b db = (Response 400 (ErrorJson ''name, sector, amount required''), db)"
  using assms by (simp add: post_spends_def)

lemma eq_null_not_truthy: "eq_null v \<Longrightarrow> \<not> truthy v"
  by (auto simp: eq_null_def)

lemma Model_create_Inr:
  assumes "schema c = Inr d" and "doc_id d \<notin> doc_id ` set coll"
  shows "Model_create schema coll c = Inr (d, coll @ [d])"
  using assms by (simp add: Model_create_def)

lemma Model_create_InrD:
  assumes "Model_create schema coll c = Inr (d, coll')"
  shows "schema c = Inr d \<and> coll' = coll @ [d] \<and> doc_id d \<notin> doc_id ` set coll"
  using assms by (auto simp: Model_create_def split: sum.splits if_splits)

lemma SpendSchema_InrD:
  assumes "SpendSchema h now oid c = Inr d"
  shows "castString h (c_name c) = Value (name d) \<and> castString h (c_sector c) = Value (sector d)
       \<and> castNumber h (c_amount c) = Value (amount d) \<and> c_date c = Some (date d)
       \<and> doc_id d = oid \<and> createdAt d = now \<and> updatedAt d = now
       \<and> name d \<noteq> [] \<and> sector d \<noteq> []"
  using assms
  by (auto simp: SpendSchema_def castDate_def split: cast.splits if_splits option.splits)

lemma create_passes_presence_check:
  assumes "truthy (body_name b)" and "truthy (body_sector b)" and "\<not> eq_null (body_amount b)"
  shows "(\<exists>d coll. post_spends h now oid b db = (Response 201 (DocJson d), db\<lparr>spends := coll\<rparr>))
       \<or> post_spends h now oid b db = (Response 500 (ErrorJson ''Server error''), db)"
  using assms by (auto simp: post_spends_def split: sum.splits)

text \<open>
  C3. A create request in which name, sector or amount is absent (\<open>undefined\<close> or
  \<open>null\<close>) is answered with status 400, and nothing is inserted: both collections are
  as they were.
\<close>

theorem create_missing_field:
  assumes "eq_null (body_name b) \<or> eq_null (body_sector b) \<or> eq_null (body_amount b)"
  shows "post_spends h now oid b db =
           (Response 400 (ErrorJson ''name, sector, amount required''), db)"
  using assms by (intro post_spends_rejected) (auto dest: eq_null_not_truthy)

theorem create_missing_field_witness:
  "eq_null (body_sector \<lparr>body_name = Some (JStr ''Coffee''), body_sector = None,
                          body_amount = Some (JNum 3), body_note = None, body_date = None\<rparr>)
   \<and> post_spends (fixed_offset_host 0) 1700000000000 1
        \<lparr>body_name = Some (JStr ''Coffee''), body_sector = None,
         body_amount = Some (JNum 3), body_note = None, body_date = None\<rparr>
        \<lparr>spends = [], incomes = []\<rparr>
      = (Response 400 (ErrorJson ''name, sector, amount required''), \<lparr>spends = [], incomes = []\<rparr>)"
  using create_missing_field[of "\<lparr>body_name = Some (JStr ''Coffee''), body_sector = None,
         body_amount = Some (JNum 3), body_note = None, body_date = None\<rparr>"
         "fixed_offset_host 0" 1700000000000 1 "\<lparr>spends = [], incomes = []\<rparr>"]
  by (simp add: eq_null_def)

text \<open>
  C9. A create request in which name or sector is present but falsy (the empty string,
  and also 0, \<open>false\<close> or \<open>null\<close>) is answered with status 400, and nothing is inserted:
  the presence check is a test of truthiness.
\<close>

theorem create_falsy_name_or_sector:
  assumes "(body_name b \<noteq> None \<and> \<not> truthy (body_name b))
         \<or> (body_sector b \<noteq> None \<and> \<not> truthy (body_sector b))"
  shows "post_spends h now oid b db =
           (Response 400 (ErrorJson ''name, sector, amount required''), db)"
  using assms by (intro post_spends_rejected) auto

theorem create_falsy_name_or_sector_witness:
  "body_name \<lparr>body_name = Some (JStr ''''), body_sector = Some (JStr ''Food''),
              body_amount = Some (JNum 3), body_note = None, body_date = None\<rparr> \<noteq> None
   \<and> \<not> truthy (Some (JStr ''''))
   \<and> \<not> truthy (Some (JNum 0)) \<and> \<not> truthy (Some (JBool False)) \<and> \<not> truthy (Some JNull)
   \<and> post_spends (fixed_offset_host 0) 1700000000000 1
        \<lparr>body_name = Some (JStr ''''), body_sector = Some (JStr ''Food''),
         body_amount = Some (JNum 3), body_note = None, body_date = None\<rparr>
        \<lparr>spends = [], incomes = []\<rparr>
      = (Response 400 (ErrorJson ''name, sector, amount required''), \<lparr>spends = [], incomes = []\<rparr>)"
  using create_falsy_name_or_sector[of "\<lparr>body_name = Some (JStr ''''), body_sector = Some (JStr ''Food''),
         body_amount = Some (JNum 3), body_note = None, body_date = None\<rparr>"
         "fixed_offset_host 0" 1700000000000 1 "\<lparr>spends = [], incomes = []\<rparr>"]
  by simp



text \<open>
  C4, as stated: the stored date is the current time when the date is omitted, and the
  parsed value for every date value that is given, falsy ones such as the number 0
  included. It fails for the number 0: \<open>new Date(0)\<close> is the epoch, but the record is
  stored with the current time.
\<close>

theorem create_date_zero:
  "post_spends (fixed_offset_host 0) 1700000000000 7
        \<lparr>body_name = Some (JStr ''Coffee''), body_sector = Some (JStr ''Food''),
         body_amount = Some (JNum 3), body_note = None, body_date = Some (JNum 0)\<rparr>
        \<lparr>spends = [], incomes = []\<rparr>
      = (Response 201
           (DocJson \<lparr>doc_id = 7, name = ''Coffee'', sector = ''Food'', amount = 3,
                     note_text = Some [], date = 1700000000000,
                     createdAt = 1700000000000, updatedAt = 1700000000000\<rparr>),
         \<lparr>spends = [\<lparr>doc_id = 7, name = ''Coffee'', sector = ''Food'', amount = 3,
                      note_text = Some [], date = 1700000000000,
                      createdAt = 1700000000000, updatedAt = 1700000000000\<rparr>],
          incomes = []\<rparr>)
   \<and> new_Date_value (fixed_offset_host 0) (Some (JNum 0)) = Some 0
   \<and> Some (1700000000000 :: int) \<noteq> new_Date_value (fixed_offset_host 0) (Some (JNum 0))"
  by (simp add: post_spends_def eq_null_def Model_create_def SpendSchema_def castString_def
      castNumber_def castDate_def js_or_def new_Date_value_def trunc_def maxTime_def)

text \<open>
  C4, amended. The date of a stored record is the current time when the date value is
  omitted or falsy (\<open>null\<close>, \<open>false\<close>, 0, the empty string), and otherwise the value of
  \<open>new Date(value)\<close>; the record is the one appended to the collection.
\<close>

theorem create_date:
  assumes "post_spends h now oid b db = (Response 201 (DocJson d), db')"
  shows "Some (date d) = (if truthy (body_date b) then new_Date_value h (body_date b) else Some now)
       \<and> db' = db\<lparr>spends := spends db @ [d]\<rparr>"
proof -
  let ?c = "\<lparr>c_name = body_name b, c_sector = body_sector b, c_amount = body_amount b,
             c_note = js_or (body_note b) (Some (JStr [])),
             c_date = (if truthy (body_date b) then new_Date_value h (body_date b) else Some now)\<rparr>"
  from assms obtain coll where
    cr: "Model_create (SpendSchema h now oid) (spends db) ?c = Inr (d, coll)"
    and db': "db' = db\<lparr>spends := coll\<rparr>"
    by (auto simp: post_spends_def split: if_splits sum.splits prod.splits)
  from Model_create_InrD[OF cr] have sch: "SpendSchema h now oid ?c = Inr d"
    and coll: "coll = spends db @ [d]" by simp_all
  from SpendSchema_InrD[OF sch] have "c_date ?c = Some (date d)" by simp
  then show ?thesis using db' coll by simp
qed

theorem create_date_witness:
  "post_spends (fixed_offset_host 0) 1700000000000 7
        \<lparr>body_name = Some (JStr ''Coffee''), body_sector = Some (JStr ''Food''),
         body_amount = Some (JNum (9 / 2)), body_note = None, body_date = Some (JNum 1600000000000)\<rparr>
        \<lparr>spends = [], incomes = []\<rparr>
      = (Response 201
           (DocJson \<lparr>doc_id = 7, name = ''Coffee'', sector = ''Food'', amount = 9 / 2,
                     note_text = Some [], date = 1600000000000,
                     createdAt = 1700000000000, updatedAt = 1700000000000\<rparr>),
         \<lparr>spends = [\<lparr>doc_id = 7, name = ''Coffee'', sector = ''Food'', amount = 9 / 2,
                      note_text = Some [], date = 1600000000000,
                      createdAt = 1700000000000, updatedAt = 1700000000000\<rparr>],
          incomes = []\<rparr>)
   \<and> Some (1600000000000 :: int)
      = (if truthy (Some (JNum 1600000000000))
         then new_Date_value (fixed_offset_host 0) (Some (JNum 1600000000000))
         else Some 1700000000000)"
proof -
  have p: "post_spends (fixed_offset_host 0) 1700000000000 7
        \<lparr>body_name = Some (JStr ''Coffee''), body_sector = Some (JStr ''Food''),
         body_amount = Some (JNum (9 / 2)), body_note = None, body_date = Some (JNum 1600000000000)\<rparr>
        \<lparr>spends = [], incomes = []\<rparr>
      = (Response 201
           (DocJson \<lparr>doc_id = 7, name = ''Coffee'', sector = ''Food'', amount = 9 / 2,
                     note_text = Some [], date = 1600000000000,
                     createdAt = 1700000000000, updatedAt = 1700000000000\<rparr>),
         \<lparr>spends = [\<lparr>doc_id = 7, name = ''Coffee'', sector = ''Food'', amount = 9 / 2,
                      note_text = Some [], date = 1600000000000,
                      createdAt = 1700000000000, updatedAt = 1700000000000\<rparr>],
          incomes = []\<rparr>)"
    by (simp add: post_spends_def eq_null_def Model_create_def SpendSchema_def castString_def
      castNumber_def castDate_def js_or_def new_Date_value_def trunc_def maxTime_def)
  show ?thesis using create_date[OF p] p by simp
qed

section \<open>Monthly summary\<close>

lemma first_occurrences_set [simp]: "set (first_occurrences xs) = set xs"
  by (induction xs) auto

lemma first_occurrences_distinct [simp]: "distinct (first_occurrences xs)"
  by (induction xs) auto





lemma match_date_valid:
  "match_date (Some s) (Some e) d \<longleftrightarrow> s \<le> date d \<and> date d < e"
  by (simp add: match_date_def bson_date_def)


lemma fixed_offset_sum:
  "Sum_accumulator (fixed_offset_host off) xs = foldl js_plus (Fin 0) (map Fin xs)"
  by (simp add: fixed_offset_host_def)






section \<open>Sector and month listing\<close>

lemma sorted_desc_sort_key:
  "sorted_wrt (\<lambda>a b. date b \<le> date a) (sort_key (\<lambda>d. - date d) xs)"
proof -
  have "sorted (map (\<lambda>d. - date d) (sort_key (\<lambda>d. - date d) xs))" by (rule sorted_sort_key)
  then show ?thesis by (simp add: sorted_map sorted_wrt_iff_nth_less)
qed

text \<open>A month that gives an Invalid Date makes the query fail, and the handler answers 500.\<close>

lemma sector_listing_invalid_range:
  assumes "fst (getMonthRange h now month) = None \<or> snd (getMonthRange h now month) = None"
  shows "get_sector_spends h now sec month db = Response 500 (ErrorJson ''Server error'')"
  using assms
  by (auto simp: get_sector_spends_def Model_find_sorted_def castDate_def split_beta
      split: option.splits)

text \<open>
  C6. For every sector string and every month that resolves to a range of two valid
  dates, the listing is answered with status 200 and holds exactly the records whose
  sector is that string, character for character, and whose date lies in the range,
  each as often as it is stored, the latest first; it is the empty list when no record
  matches.
\<close>

theorem sector_listing:
  assumes "getMonthRange h now month = (Some s, Some e)"
  shows "\<exists>found.
       get_sector_spends h now sec month db = Response 200 (DocsJson found)
     \<and> set found = {d \<in> set (spends db). sector d = sec \<and> s \<le> date d \<and> date d < e}
     \<and> mset found = mset (filter (\<lambda>d. sector d = sec \<and> s \<le> date d \<and> date d < e) (spends db))
     \<and> sorted_wrt (\<lambda>a b. date b \<le> date a) found
     \<and> (filter (\<lambda>d. sector d = sec \<and> s \<le> date d \<and> date d < e) (spends db) = []
          \<longrightarrow> found = [])"
proof -
  let ?m = "filter (\<lambda>d. sector d = sec \<and> s \<le> date d \<and> date d < e) (spends db)"
  have r: "get_sector_spends h now sec month db =
      Response 200 (DocsJson (sort_key (\<lambda>d. - date d) ?m))"
    by (simp add: get_sector_spends_def assms Model_find_sorted_def castDate_def)
  show ?thesis
    unfolding r
    by (intro exI[of _ "sort_key (\<lambda>d. - date d) ?m"])
       (auto simp: sorted_desc_sort_key)
qed

theorem sector_listing_witness:
  "getMonthRange (fixed_offset_host 3600000) 0 (Some ''2024-02'')
     = (Some 1706742000000, Some 1709247600000)
   \<and> get_sector_spends (fixed_offset_host 3600000) 0 ''Food'' (Some ''2024-02'') sample_db
     = Response 200 (DocsJson [sample_doc 3 ''Lunch'' ''Food'' 12 1708000000000,
                               sample_doc 1 ''Coffee'' ''Food'' (9 / 2) 1707000000000])
   \<and> get_sector_spends (fixed_offset_host 3600000) 0 ''food'' (Some ''2024-02'') sample_db
     = Response 200 (DocsJson [])"
  using sector_listing[OF getMonthRange_2024_02_range, of 0 "''Food''" sample_db]
    sector_listing[OF getMonthRange_2024_02_range, of 0 "''food''" sample_db]
  by (simp add: get_sector_spends_def getMonthRange_2024_02_range Model_find_sorted_def
      castDate_def sample_eval)

section \<open>Retrieval and deletion by identifier\<close>

lemma find_None_iff_id: "find (\<lambda>d. doc_id d = oid) coll = None \<longleftrightarrow> oid \<notin> doc_id ` set coll"
  by (auto simp: find_None_iff)

lemma find_Some_id:
  assumes "find (\<lambda>d. doc_id d = oid) coll = Some d"
  shows "d \<in> set coll" "doc_id d = oid"
  using assms by (auto simp: find_Some_iff)

lemma ids_remove1:
  assumes "distinct (map doc_id coll)" and "d \<in> set coll"
  shows "doc_id ` set (remove1 d coll) = doc_id ` set coll - {doc_id d}"
proof -
  have dc: "distinct coll" using assms(1) by (simp add: distinct_map)
  have inj: "inj_on doc_id (set coll)" using assms(1) by (simp add: distinct_map)
  have "set (remove1 d coll) = set coll - {d}" using dc by simp
  then show ?thesis using inj assms(2) by (auto simp: inj_on_def)
qed

text \<open>
  An identifier string the store cannot read makes both operations fail with 500, and
  the store is unchanged; a record that is found is returned with status 200.
\<close>

lemma malformed_identifier:
  assumes "ObjectId_cast h ident = None"
  shows "get_spend h ident db = Response 500 (ErrorJson ''Server error'')"
    and "delete_spend h ident db = (Response 500 (ErrorJson ''Server error''), db)"
  using assms
  by (simp_all add: get_spend_def delete_spend_def Model_findById_def Model_findByIdAndDelete_def)

lemma get_spend_found:
  assumes "ObjectId_cast h ident = Some oid" and "oid \<in> doc_id ` set (spends db)"
  shows "\<exists>d \<in> set (spends db). doc_id d = oid \<and> get_spend h ident db = Response 200 (DocJson d)"
proof -
  from assms(2) have "find (\<lambda>d. doc_id d = oid) (spends db) \<noteq> None"
    by (simp add: find_None_iff_id)
  then obtain d where f: "find (\<lambda>d. doc_id d = oid) (spends db) = Some d" by auto
  from find_Some_id[OF f] show ?thesis
    by (intro bexI[of _ d]) (simp_all add: get_spend_def Model_findById_def assms(1) f)
qed

text \<open>
  C7. For an identifier the store can read, in a collection whose identifiers are
  unique: when no record has that identifier, the deletion is answered with status 404
  and the store is unchanged; when a record has it, that record is removed (and nothing
  else changes), the answer is the acknowledgement with status 200, and a retrieval of
  the same identifier afterwards is answered with status 404.
\<close>

theorem delete_by_id:
  assumes "ObjectId_cast h ident = Some oid" and "distinct (map doc_id (spends db))"
  shows "(oid \<notin> doc_id ` set (spends db) \<longrightarrow>
            delete_spend h ident db = (Response 404 (ErrorJson ''Not found''), db))
       \<and> (oid \<in> doc_id ` set (spends db) \<longrightarrow>
            (\<exists>db'. delete_spend h ident db = (Response 200 OkJson, db')
               \<and> doc_id ` set (spends db') = doc_id ` set (spends db) - {oid}
               \<and> incomes db' = incomes db
               \<and> get_spend h ident db' = Response 404 (ErrorJson ''Not found'')))"
proof (intro conjI impI)
  assume "oid \<notin> doc_id ` set (spends db)"
  then have "find (\<lambda>d. doc_id d = oid) (spends db) = None" by (simp add: find_None_iff_id)
  then show "delete_spend h ident db = (Response 404 (ErrorJson ''Not found''), db)"
    by (simp add: delete_spend_def Model_findByIdAndDelete_def assms(1))
next
  assume "oid \<in> doc_id ` set (spends db)"
  then have "find (\<lambda>d. doc_id d = oid) (spends db) \<noteq> None" by (simp add: find_None_iff_id)
  then obtain d where f: "find (\<lambda>d. doc_id d = oid) (spends db) = Some d" by auto
  note d = find_Some_id[OF f]
  let ?db' = "db\<lparr>spends := remove1 d (spends db)\<rparr>"
  have del: "delete_spend h ident db = (Response 200 OkJson, ?db')"
    by (simp add: delete_spend_def Model_findByIdAndDelete_def assms(1) f)
  have ids: "doc_id ` set (spends ?db') = doc_id ` set (spends db) - {oid}"
    using ids_remove1[OF assms(2) d(1)] d(2) by simp
  then have "oid \<notin> doc_id ` set (spends ?db')" by simp
  then have "find (\<lambda>d. doc_id d = oid) (spends ?db') = None" by (simp add: find_None_iff_id)
  then have get: "get_spend h ident ?db' = Response 404 (ErrorJson ''Not found'')"
    by (simp add: get_spend_def Model_findById_def assms(1))
  show "\<exists>db'. delete_spend h ident db = (Response 200 OkJson, db')
               \<and> doc_id ` set (spends db') = doc_id ` set (spends db) - {oid}
               \<and> incomes db' = incomes db
               \<and> get_spend h ident db' = Response 404 (ErrorJson ''Not found'')"
    using del ids get by (intro exI[of _ ?db']) simp
qed

theorem delete_by_id_witness:
  "ObjectId_cast (fixed_offset_host 0) ''000000000000000000000001'' = Some 1
   \<and> distinct (map doc_id (spends sample_db))
   \<and> 1 \<in> doc_id ` set (spends sample_db)
   \<and> delete_spend (fixed_offset_host 0) ''000000000000000000000001'' sample_db
      = (Response 200 OkJson,
         sample_db\<lparr>spends := [sample_doc 2 ''Rent'' ''Home'' 800 1706800000000,
                               sample_doc 3 ''Lunch'' ''Food'' 12 1708000000000,
                               sample_doc 4 ''Dinner'' ''Food'' 30 1700000000000]\<rparr>)
   \<and> get_spend (fixed_offset_host 0) ''000000000000000000000001''
        (sample_db\<lparr>spends := [sample_doc 2 ''Rent'' ''Home'' 800 1706800000000,
                               sample_doc 3 ''Lunch'' ''Food'' 12 1708000000000,
                               sample_doc 4 ''Dinner'' ''Food'' 30 1700000000000]\<rparr>)
      = Response 404 (ErrorJson ''Not found'')
   \<and> 255 \<notin> doc_id ` set (spends sample_db)
   \<and> delete_spend (fixed_offset_host 0) ''0000000000000000000000ff'' sample_db
      = (Response 404 (ErrorJson ''Not found''), sample_db)"
  using delete_by_id[OF sample_ids(1), of sample_db] delete_by_id[OF sample_ids(2), of sample_db]
  by (simp add: sample_ids delete_spend_def get_spend_def Model_findByIdAndDelete_def
      Model_findById_def sample_eval)

section \<open>The income handlers\<close>

lemma swap_db_simps [simp]:
  "spends (swap_db db) = incomes db" "incomes (swap_db db) = spends db"
  "swap_db (swap_db db) = db"
  by (simp_all add: swap_db_def)

lemma swap_db_update:
  "swap_db ((swap_db db)\<lparr>spends := c\<rparr>) = db\<lparr>incomes := c\<rparr>"
  by (simp add: swap_db_def)

text \<open>
  C8. Each income handler (create, summary, sector listing, retrieval and deletion by
  identifier) computes, on the collection of incomes, what the spend handler of the same
  kind computes on the collection of spends: it is the spend handler run with the two
  collections exchanged.
\<close>

lemma double_2500: "roundToDouble 2500 = Fin 2500"
  using roundToDouble_int[of 2500] by simp

theorem income_handlers_mirror_spend_handlers:
  "post_incomes h now oid b db =
     (case post_spends h now oid b (swap_db db) of (r, db') \<Rightarrow> (r, swap_db db'))
   \<and> get_incomes_summary h now month db = get_spends_summary h now month (swap_db db)
   \<and> get_sector_incomes h now sec month db = get_sector_spends h now sec month (swap_db db)
   \<and> get_income h ident db = get_spend h ident (swap_db db)
   \<and> delete_income h ident db =
     (case delete_spend h ident (swap_db db) of (r, db') \<Rightarrow> (r, swap_db db'))"
proof (intro conjI)
  show "post_incomes h now oid b db =
     (case post_spends h now oid b (swap_db db) of (r, db') \<Rightarrow> (r, swap_db db'))"
    unfolding post_incomes_def post_spends_def IncomeSchema_def
    by (simp add: swap_db_update split: sum.splits prod.splits)
  show "get_incomes_summary h now month db = get_spends_summary h now month (swap_db db)"
    by (simp add: get_incomes_summary_def get_spends_summary_def)
  show "get_sector_incomes h now sec month db = get_sector_spends h now sec month (swap_db db)"
    by (simp add: get_sector_incomes_def get_sector_spends_def)
  show "get_income h ident db = get_spend h ident (swap_db db)"
    by (simp add: get_income_def get_spend_def)
  show "delete_income h ident db =
     (case delete_spend h ident (swap_db db) of (r, db') \<Rightarrow> (r, swap_db db'))"
    unfolding delete_income_def delete_spend_def
    by (simp add: swap_db_update split: sum.splits prod.splits option.splits)
qed

theorem income_handlers_mirror_spend_handlers_witness:
  "get_income (fixed_offset_host 0) ''000000000000000000000001'' sample_db
     = get_spend (fixed_offset_host 0) ''000000000000000000000001'' (swap_db sample_db)
   \<and> get_income (fixed_offset_host 0) ''000000000000000000000001'' sample_db
     = Response 404 (ErrorJson ''Not found'')
   \<and> get_spend (fixed_offset_host 0) ''000000000000000000000001'' sample_db
     = Response 200 (DocJson (sample_doc 1 ''Coffee'' ''Food'' (9 / 2) 1707000000000))
   \<and> get_incomes_summary (fixed_offset_host 3600000) 0 (Some ''2024-02'') sample_db
     = Response 200 (SummaryJson (Fin 2500) [(''Work'', Fin 2500)])
   \<and> get_spends_summary (fixed_offset_host 3600000) 0 (Some ''2024-02'') (swap_db sample_db)
     = Response 200 (SummaryJson (Fin 2500) [(''Work'', Fin 2500)])"
  using income_handlers_mirror_spend_handlers[of "fixed_offset_host 0" 0 0 "\<lparr>body_name = None, body_sector = None, body_amount = None, body_note = None, body_date = None\<rparr>" sample_db
      None "''''" "''000000000000000000000001''"]
    income_handlers_mirror_spend_handlers[of "fixed_offset_host 3600000" 0 0 "\<lparr>body_name = None, body_sector = None, body_amount = None, body_note = None, body_date = None\<rparr>" sample_db
      "Some ''2024-02''" "''''" "''''"]
  by (simp add: sample_ids get_income_def get_spend_def Model_findById_def
      get_incomes_summary_def get_spends_summary_def getMonthRange_2024_02_range
      Model_aggregate_def group_by_sector_def match_date_def bson_date_def sample_eval
      fixed_offset_sum js_plus_def double_2500)

end
